theory Spec2Isabelle
  imports Complex_Main "HOL-Library.List_Lexorder"
begin

section \<open>JavaScript values\<close>

text \<open>
  A JavaScript string is a sequence of UTF-16 code units; \<open>input[i]\<close> is the one-unit
  string at index \<open>i\<close>. Strings are therefore lists of code units (natural numbers below
  65536). The two non-ASCII symbols of the sources are the Greek letter epsilon (U+03B5)
  and the white square (U+25A1).
\<close>

type_synonym jsstring = "nat list"

definition EPSILON :: jsstring where
  "EPSILON = [949]"

definition BLANK :: jsstring where
  "BLANK = [9633]"

text \<open>
  State objects live in a store and are shared by reference: the automaton's \<open>states\<close>
  array, its \<open>initialState\<close>, the endpoints of transitions and the set of current states
  all point at the same objects. The two static id counters of the classes \<open>State\<close> and
  \<open>Transition\<close> are global. A JavaScript \<open>Set\<close> is a duplicate-free list in insertion
  order.
\<close>

type_synonym ref = nat

definition set_add :: "'a \<Rightarrow> 'a list \<Rightarrow> 'a list" where
  "set_add v xs = (if v \<in> set xs then xs else xs @ [v])"

text \<open>
  \<open>String(n)\<close> for an integer id, and \<open>Array.prototype.join\<close>.
\<close>

fun digits :: "nat \<Rightarrow> jsstring" where
  "digits n = (if n < 10 then [48 + n] else digits (n div 10) @ [48 + n mod 10])"

declare digits.simps [simp del]

definition number_toString :: "int \<Rightarrow> jsstring" where
  "number_toString i = (if i < 0 then 45 # digits (nat (- i)) else digits (nat i))"

fun join :: "jsstring list \<Rightarrow> jsstring \<Rightarrow> jsstring" where
  "join [] sep = []"
| "join [s] sep = s"
| "join (s # s' # ss) sep = s @ sep @ join (s' # ss) sep"

text \<open>\<open>new Set(array)\<close> and \<open>Math.max(...array)\<close> of a non-empty array.\<close>

definition Set_of :: "'a list \<Rightarrow> 'a list" where
  "Set_of xs = fold set_add xs []"

definition Math_max :: "int list \<Rightarrow> int" where
  "Math_max xs = fold max (tl xs) (hd xs)"


definition array_set :: "'a option list \<Rightarrow> int \<Rightarrow> 'a option \<Rightarrow> 'a option list" where
  "array_set xs i v =
     (if i < 0 then xs
      else if i < int (length xs) then xs[nat i := v]
      else xs @ replicate (nat i - length xs) None @ [v])"


text \<open>
  \<open>for (const char of input)\<close> walks the string by code points: a surrogate pair is one
  two-unit string.
\<close>

fun code_points :: "jsstring \<Rightarrow> jsstring list" where
  "code_points [] = []"
| "code_points [u] = [[u]]"
| "code_points (u # v # us) =
     (if 55296 \<le> u \<and> u \<le> 56319 \<and> 56320 \<le> v \<and> v \<le> 57343
      then [u, v] # code_points us
      else [u] # code_points (v # us))"

section \<open>State\<close>

text \<open>
  The fields of a \<open>State\<close> that the engine reads. The purely visual fields (radius,
  color, selected, highlighted, active) are written by the simulation but never read by
  it and are not serialised; they are left out.
\<close>

record State =
  state_id :: int
  name :: jsstring
  pos_x :: real
  pos_y :: real
  isInitial :: bool
  isFinal :: bool
  isHalt :: bool

record world =
  heap :: "ref \<Rightarrow> State"
  nextRef :: ref
  State_nextId :: int
  Transition_nextId :: int

definition set_isInitial :: "world \<Rightarrow> ref \<Rightarrow> bool \<Rightarrow> world" where
  "set_isInitial w r b = w\<lparr>heap := (heap w)(r := (heap w r)\<lparr>isInitial := b\<rparr>)\<rparr>"

text \<open>
  The options object of a constructor: a field that is absent is \<open>None\<close>. The
  constructor reads most fields as \<open>options.f || default\<close>, which also replaces the falsy
  values \<open>0\<close> and \<open>''\<close> by the default.
\<close>

record State_options =
  opt_id :: "int option"
  opt_name :: "jsstring option"
  opt_x :: "real option"
  opt_y :: "real option"
  opt_isInitial :: "bool option"
  opt_isFinal :: "bool option"
  opt_isHalt :: "bool option"

definition no_State_options :: State_options where
  "no_State_options =
     \<lparr>opt_id = None, opt_name = None, opt_x = None, opt_y = None, opt_isInitial = None,
      opt_isFinal = None, opt_isHalt = None\<rparr>"

definition string_or :: "jsstring option \<Rightarrow> jsstring \<Rightarrow> jsstring" where
  "string_or v d = (case v of None \<Rightarrow> d | Some s \<Rightarrow> if s = [] then d else s)"

definition number_or :: "real option \<Rightarrow> real \<Rightarrow> real" where
  "number_or v d = (case v of None \<Rightarrow> d | Some n \<Rightarrow> if n = 0 then d else n)"

definition bool_or_false :: "bool option \<Rightarrow> bool" where
  "bool_or_false v = (case v of None \<Rightarrow> False | Some b \<Rightarrow> b)"

definition string_or_null :: "jsstring option \<Rightarrow> jsstring option" where
  "string_or_null v = (case v of None \<Rightarrow> None | Some s \<Rightarrow> if s = [] then None else Some s)"

text \<open>\<open>new State(options)\<close> allocates the object and returns its reference.\<close>

definition new_State :: "world \<Rightarrow> State_options \<Rightarrow> ref \<times> world" where
  "new_State w options =
     (let (i, w1) =
            (case opt_id options of
               Some n \<Rightarrow> (n, w)
             | None \<Rightarrow> (State_nextId w, w\<lparr>State_nextId := State_nextId w + 1\<rparr>));
          st = \<lparr>state_id = i,
                name = string_or (opt_name options) (113 # number_toString i),
                pos_x = number_or (opt_x options) 100,
                pos_y = number_or (opt_y options) 100,
                isInitial = bool_or_false (opt_isInitial options),
                isFinal = bool_or_false (opt_isFinal options),
                isHalt = bool_or_false (opt_isHalt options)\<rparr>;
          r = nextRef w1
      in (r, w1\<lparr>heap := (heap w1)(r := st), nextRef := r + 1\<rparr>))"

section \<open>Transition\<close>

text \<open>
  An endpoint of a transition is a State object or a bare id (\<open>typeof x === 'object'\<close>
  tells them apart); \<open>Transition.fromJSON\<close> leaves it \<open>undefined\<close> when no state has the
  id. The visual fields (color, controlPoint, labelOffset, selected, highlighted) are
  left out.
\<close>

datatype endpoint = Obj ref | Num int | Undefined

record Transition =
  trans_id :: int
  fromState :: endpoint
  toState :: endpoint
  symbols :: "jsstring list"
  stackRead :: "jsstring option"
  stackWrite :: "jsstring option"
  readSymbol :: "jsstring option"
  writeSymbol :: "jsstring option"
  direction :: "jsstring option"

text \<open>\<open>Transition.accepts(symbol)\<close>; the argument may be \<open>null\<close> (\<open>None\<close>).\<close>

definition accepts :: "Transition \<Rightarrow> jsstring option \<Rightarrow> bool" where
  "accepts t symbol =
     (if EPSILON \<in> set (symbols t) \<or> [] \<in> set (symbols t)
      then symbol = Some [] \<or> symbol = Some EPSILON \<or> symbol = None
      else (case symbol of None \<Rightarrow> False | Some s \<Rightarrow> s \<in> set (symbols t)))"

definition isEpsilon :: "Transition \<Rightarrow> bool" where
  "isEpsilon t =
     (length (symbols t) = 0 \<or> EPSILON \<in> set (symbols t) \<or>
      (length (symbols t) = 1 \<and> symbols t ! 0 = []))"

text \<open>
  \<open>typeof e === 'object' ? e.id : e\<close>: the id behind an endpoint, \<open>None\<close> for
  \<open>undefined\<close>.
\<close>

definition endpoint_id :: "(ref \<Rightarrow> State) \<Rightarrow> endpoint \<Rightarrow> int option" where
  "endpoint_id h e =
     (case e of Obj r \<Rightarrow> Some (state_id (h r)) | Num n \<Rightarrow> Some n | Undefined \<Rightarrow> None)"

definition getFromStateId :: "(ref \<Rightarrow> State) \<Rightarrow> Transition \<Rightarrow> int option" where
  "getFromStateId h t = endpoint_id h (fromState t)"

definition getToStateId :: "(ref \<Rightarrow> State) \<Rightarrow> Transition \<Rightarrow> int option" where
  "getToStateId h t = endpoint_id h (toState t)"

record Transition_options =
  topt_id :: "int option"
  topt_fromState :: endpoint
  topt_toState :: endpoint
  topt_symbols :: "jsstring list option"
  topt_stackRead :: "jsstring option"
  topt_stackWrite :: "jsstring option"
  topt_readSymbol :: "jsstring option"
  topt_writeSymbol :: "jsstring option"
  topt_direction :: "jsstring option"

definition new_Transition :: "world \<Rightarrow> Transition_options \<Rightarrow> Transition \<times> world" where
  "new_Transition w options =
     (let (i, w1) =
            (case topt_id options of
               Some n \<Rightarrow> (n, w)
             | None \<Rightarrow> (Transition_nextId w, w\<lparr>Transition_nextId := Transition_nextId w + 1\<rparr>))
      in (\<lparr>trans_id = i,
           fromState = topt_fromState options,
           toState = topt_toState options,
           symbols = (case topt_symbols options of None \<Rightarrow> [] | Some ss \<Rightarrow> ss),
           stackRead = string_or_null (topt_stackRead options),
           stackWrite = string_or_null (topt_stackWrite options),
           readSymbol = string_or_null (topt_readSymbol options),
           writeSymbol = string_or_null (topt_writeSymbol options),
           direction = string_or_null (topt_direction options)\<rparr>, w1))"

section \<open>Automaton\<close>

text \<open>
  A trace entry keeps the fields that the engine reads back (\<open>TuringMachine.run\<close>
  compares \<open>states[0]\<close>, \<open>headPosition\<close> and \<open>tape\<close> of recent entries) and the kind
  of its description text; a field that an entry does not have is \<open>None\<close>.
\<close>

datatype description = Start | TookTransition | NoTransition | LoopDetected

record trace_entry =
  te_step :: nat
  te_states :: "jsstring list"
  te_tape :: "jsstring option"
  te_headPosition :: "int option"
  te_symbol :: "jsstring option"
  te_description :: description

datatype machine_type = DFA_type | NFA_type | PDA_type | TM_type

text \<open>
  The undo history (\<open>saveToHistory\<close>, \<open>undo\<close>, \<open>redo\<close>) is a list of snapshots that
  the mutating operations only append to; it is not modelled.
\<close>

record Automaton =
  atype :: machine_type
  states :: "ref list"
  transitions :: "Transition list"
  alphabet :: "jsstring list"
  initialState :: "ref option"
  currentStates :: "ref list"
  input :: jsstring
  inputIndex :: nat
  trace :: "trace_entry list"
  isRunning :: bool
  isAccepted :: "bool option"

definition new_Automaton :: "machine_type \<Rightarrow> Automaton" where
  "new_Automaton ty =
     \<lparr>atype = ty, states = [], transitions = [], alphabet = [], initialState = None,
      currentStates = [], input = [], inputIndex = 0, trace = [], isRunning = False,
      isAccepted = None\<rparr>"

definition getState :: "(ref \<Rightarrow> State) \<Rightarrow> 'a Automaton_scheme \<Rightarrow> int \<Rightarrow> ref option" where
  "getState h a n = find (\<lambda>s. state_id (h s) = n) (states a)"

text \<open>
  \<open>typeof e === 'object' ? e : this.getState(e)\<close>; \<open>None\<close> when the result is falsy
  (no state has the id, or the endpoint is \<open>undefined\<close> or \<open>null\<close>).
\<close>

definition resolve :: "(ref \<Rightarrow> State) \<Rightarrow> 'a Automaton_scheme \<Rightarrow> endpoint \<Rightarrow> ref option" where
  "resolve h a e =
     (case e of Obj r \<Rightarrow> Some r | Num n \<Rightarrow> getState h a n | Undefined \<Rightarrow> None)"

definition getTransitionsFrom ::
  "(ref \<Rightarrow> State) \<Rightarrow> 'a Automaton_scheme \<Rightarrow> ref \<Rightarrow> Transition list" where
  "getTransitionsFrom h a s =
     filter (\<lambda>t. getFromStateId h t = Some (state_id (h s))) (transitions a)"

definition getFinalStates :: "(ref \<Rightarrow> State) \<Rightarrow> 'a Automaton_scheme \<Rightarrow> ref list" where
  "getFinalStates h a = filter (\<lambda>s. isFinal (h s)) (states a)"

subsection \<open>Mutating operations\<close>

definition addState :: "world \<Rightarrow> 'a Automaton_scheme \<Rightarrow> ref \<Rightarrow> world \<times> 'a Automaton_scheme" where
  "addState w a s =
     (let (w1, a1) =
            (if length (states a) = 0
             then (set_isInitial w s True, a\<lparr>initialState := Some s\<rparr>)
             else (w, a));
          (w2, a2) =
            (if isInitial (heap w1 s)
             then ((case initialState a1 of
                      Some i \<Rightarrow> if i \<noteq> s then set_isInitial w1 i False else w1
                    | None \<Rightarrow> w1),
                   a1\<lparr>initialState := Some s\<rparr>)
             else (w1, a1))
      in (w2, a2\<lparr>states := states a2 @ [s]\<rparr>))"

definition removeState ::
  "world \<Rightarrow> 'a Automaton_scheme \<Rightarrow> endpoint \<Rightarrow> world \<times> 'a Automaton_scheme" where
  "removeState w a st =
     (let stateId = endpoint_id (heap w) st;
          a1 = a\<lparr>transitions :=
                   filter (\<lambda>t. getFromStateId (heap w) t \<noteq> stateId \<and>
                                getToStateId (heap w) t \<noteq> stateId) (transitions a)\<rparr>;
          a2 = a1\<lparr>states := filter (\<lambda>s. Some (state_id (heap w s)) \<noteq> stateId) (states a1)\<rparr>
      in (case initialState a2 of
            None \<Rightarrow> (w, a2)
          | Some i \<Rightarrow>
              if Some (state_id (heap w i)) = stateId
              then (case states a2 of
                      [] \<Rightarrow> (w, a2\<lparr>initialState := None\<rparr>)
                    | f # _ \<Rightarrow> (set_isInitial w f True, a2\<lparr>initialState := Some f\<rparr>))
              else (w, a2)))"

definition addTransition :: "'a Automaton_scheme \<Rightarrow> Transition \<Rightarrow> 'a Automaton_scheme" where
  "addTransition a t =
     a\<lparr>alphabet := fold (\<lambda>s al. if s \<noteq> [] \<and> s \<noteq> EPSILON then set_add s al else al)
                      (symbols t) (alphabet a),
       transitions := transitions a @ [t]\<rparr>"

datatype transition_arg = TransitionObj Transition | TransitionId int

definition removeTransition :: "'a Automaton_scheme \<Rightarrow> transition_arg \<Rightarrow> 'a Automaton_scheme" where
  "removeTransition a tr =
     (let transitionId = (case tr of TransitionObj t \<Rightarrow> trans_id t | TransitionId n \<Rightarrow> n)
      in a\<lparr>transitions := filter (\<lambda>t. trans_id t \<noteq> transitionId) (transitions a)\<rparr>)"

definition setInitialState ::
  "world \<Rightarrow> 'a Automaton_scheme \<Rightarrow> endpoint \<Rightarrow> world \<times> 'a Automaton_scheme" where
  "setInitialState w a st =
     (let w1 = (case initialState a of Some i \<Rightarrow> set_isInitial w i False | None \<Rightarrow> w)
      in (case resolve (heap w1) a st of
            Some stateObj \<Rightarrow> (set_isInitial w1 stateObj True, a\<lparr>initialState := Some stateObj\<rparr>)
          | None \<Rightarrow> (w1, a)))"

definition resetSimulation :: "'a Automaton_scheme \<Rightarrow> 'a Automaton_scheme" where
  "resetSimulation a =
     a\<lparr>currentStates := (case initialState a of Some i \<Rightarrow> [i] | None \<Rightarrow> []),
       inputIndex := 0, trace := [], isRunning := False, isAccepted := None\<rparr>"

definition clear :: "world \<Rightarrow> 'a Automaton_scheme \<Rightarrow> world \<times> 'a Automaton_scheme" where
  "clear w a =
     (w\<lparr>State_nextId := 0, Transition_nextId := 0\<rparr>,
      resetSimulation (a\<lparr>states := [], transitions := [], alphabet := [],
                         initialState := None\<rparr>))"

text \<open>A call of one of the six mutating operations, and a sequence of such calls.\<close>

datatype mutation =
    AddState ref
  | RemoveState endpoint
  | AddTransition Transition
  | RemoveTransition transition_arg
  | SetInitialState endpoint
  | Clear

fun mutate :: "world \<times> 'a Automaton_scheme \<Rightarrow> mutation \<Rightarrow> world \<times> 'a Automaton_scheme" where
  "mutate (w, a) (AddState s) = addState w a s"
| "mutate (w, a) (RemoveState st) = removeState w a st"
| "mutate (w, a) (AddTransition t) = (w, addTransition a t)"
| "mutate (w, a) (RemoveTransition tr) = (w, removeTransition a tr)"
| "mutate (w, a) (SetInitialState st) = setInitialState w a st"
| "mutate (w, a) Clear = clear w a"

definition mutations ::
  "world \<times> 'a Automaton_scheme \<Rightarrow> mutation list \<Rightarrow> world \<times> 'a Automaton_scheme" where
  "mutations wa ms = foldl mutate wa ms"

subsection \<open>Simulation: the common driver\<close>

text \<open>
  Reading a property of \<open>undefined\<close> throws a \<open>TypeError\<close>; a method that can throw
  returns a sum, \<open>Inl\<close> the error.
\<close>

datatype error = TypeError

text \<open>
  \<open>initSimulation\<close> also returns whether a current state exists; \<open>accepts\<close> ignores
  that flag, and it is left out.
\<close>

definition Automaton_initSimulation ::
  "(ref \<Rightarrow> State) \<Rightarrow> 'a Automaton_scheme \<Rightarrow> jsstring \<Rightarrow> 'a Automaton_scheme" where
  "Automaton_initSimulation h a inp =
     (let a1 = resetSimulation (a\<lparr>input := inp\<rparr>)
      in (case initialState a1 of
            None \<Rightarrow> a1
          | Some i \<Rightarrow>
              a1\<lparr>currentStates := set_add i (currentStates a1),
                 trace := trace a1 @
                   [\<lparr>te_step = 0, te_states = [name (h i)], te_tape = None,
                     te_headPosition = None, te_symbol = None, te_description = Start\<rparr>]\<rparr>))"

definition Automaton_checkAcceptance ::
  "(ref \<Rightarrow> State) \<Rightarrow> 'a Automaton_scheme \<Rightarrow> 'a Automaton_scheme" where
  "Automaton_checkAcceptance h a =
     (if \<exists>s \<in> set (currentStates a). \<exists>f \<in> set (getFinalStates h a).
           state_id (h f) = state_id (h s)
      then a\<lparr>isAccepted := Some True\<rparr>
      else a\<lparr>isAccepted := Some False\<rparr>)"

text \<open>
  \<open>run(maxSteps)\<close> calls \<open>this.step()\<close> and \<open>this.checkAcceptance()\<close>, which the
  subclasses override: the driver takes them as parameters. A step returns its boolean
  result with the new automaton.
\<close>

function run_loop ::
  "('a Automaton_scheme \<Rightarrow> error + bool \<times> 'a Automaton_scheme) \<Rightarrow> nat \<Rightarrow> nat \<Rightarrow>
   'a Automaton_scheme \<Rightarrow> error + 'a Automaton_scheme" where
  "run_loop step maxSteps steps a =
     (if inputIndex a < length (input a) \<and> steps < maxSteps \<and> length (currentStates a) > 0
      then (case step a of
              Inl e \<Rightarrow> Inl e
            | Inr (continued, a1) \<Rightarrow> run_loop step maxSteps (steps + 1) a1)
      else Inr a)"
  by pat_completeness auto

termination
  by (relation "measure (\<lambda>(step, maxSteps, steps, a). maxSteps - steps)") auto

declare run_loop.simps [simp del]

definition Automaton_run ::
  "('a Automaton_scheme \<Rightarrow> error + bool \<times> 'a Automaton_scheme) \<Rightarrow>
   ('a Automaton_scheme \<Rightarrow> 'a Automaton_scheme) \<Rightarrow> nat \<Rightarrow>
   'a Automaton_scheme \<Rightarrow> error + 'a Automaton_scheme" where
  "Automaton_run step checkAcceptance maxSteps a =
     (case run_loop step maxSteps 0 (a\<lparr>isRunning := True\<rparr>) of
        Inl e \<Rightarrow> Inl e
      | Inr a1 \<Rightarrow> Inr (checkAcceptance (a1\<lparr>isRunning := False\<rparr>)))"

section \<open>DFA\<close>

text \<open>
  \<open>DFA.step\<close> sets \<open>nextState.active\<close> without testing \<open>nextState\<close>: when the target
  of the chosen transition does not resolve, that assignment throws.
\<close>

definition DFA_step ::
  "(ref \<Rightarrow> State) \<Rightarrow> 'a Automaton_scheme \<Rightarrow> error + bool \<times> 'a Automaton_scheme" where
  "DFA_step h a =
     (if inputIndex a \<ge> length (input a) \<or> length (currentStates a) = 0
      then Inr (False, Automaton_checkAcceptance h (a\<lparr>isRunning := False\<rparr>))
      else
        (let symbol = [input a ! inputIndex a];
             currentState = currentStates a ! 0
         in (case find (\<lambda>t. accepts t (Some symbol)) (getTransitionsFrom h a currentState) of
               Some validTransition \<Rightarrow>
                 (case resolve h a (toState validTransition) of
                    None \<Rightarrow> Inl TypeError
                  | Some nextState \<Rightarrow>
                      Inr (True,
                        a\<lparr>currentStates := [nextState],
                          trace := trace a @
                            [\<lparr>te_step = inputIndex a + 1, te_states = [name (h nextState)],
                              te_tape = None, te_headPosition = None,
                              te_symbol = Some symbol, te_description = TookTransition\<rparr>],
                          inputIndex := inputIndex a + 1\<rparr>))
             | None \<Rightarrow>
                 Inr (False,
                   a\<lparr>currentStates := [],
                     trace := trace a @
                       [\<lparr>te_step = inputIndex a + 1, te_states = [], te_tape = None,
                         te_headPosition = None, te_symbol = Some symbol,
                         te_description = NoTransition\<rparr>],
                     isAccepted := Some False, isRunning := False\<rparr>))))"

definition DFA_run ::
  "(ref \<Rightarrow> State) \<Rightarrow> nat \<Rightarrow> 'a Automaton_scheme \<Rightarrow> error + 'a Automaton_scheme" where
  "DFA_run h maxSteps a = Automaton_run (DFA_step h) (Automaton_checkAcceptance h) maxSteps a"

definition DFA_accepts ::
  "(ref \<Rightarrow> State) \<Rightarrow> 'a Automaton_scheme \<Rightarrow> jsstring \<Rightarrow> error + bool option" where
  "DFA_accepts h a inp =
     map_sum id isAccepted (DFA_run h 1000 (Automaton_initSimulation h a inp))"

section \<open>NFA\<close>

subsection \<open>Epsilon closure\<close>

text \<open>
  One pass of \<open>epsilonTransitions.forEach\<close>: the target of an epsilon transition that is
  not yet in the closure is added to it and pushed on the stack. The stack is a
  JavaScript array: \<open>push\<close> appends and \<open>pop\<close> takes the last element.
\<close>

definition closure_visit ::
  "(ref \<Rightarrow> State) \<Rightarrow> 'a Automaton_scheme \<Rightarrow> Transition \<Rightarrow> ref list \<times> endpoint list \<Rightarrow>
   ref list \<times> endpoint list" where
  "closure_visit h a t cs =
     (case resolve h a (toState t) of
        None \<Rightarrow> cs
      | Some toS \<Rightarrow> if toS \<in> set (fst cs) then cs else (fst cs @ [toS], snd cs @ [Obj toS]))"

definition targets :: "(ref \<Rightarrow> State) \<Rightarrow> 'a Automaton_scheme \<Rightarrow> ref set" where
  "targets h a = {r. \<exists>t \<in> set (transitions a). resolve h a (toState t) = Some r}"

lemma fold_closure_visit:
  "fold (closure_visit h a) ts (c, s) = (c', s') \<Longrightarrow>
   \<exists>new. c' = c @ new \<and> s' = s @ map Obj new \<and>
         set new = {r. \<exists>t \<in> set ts. resolve h a (toState t) = Some r} - set c"
proof (induction ts arbitrary: c s)
  case Nil
  then show ?case by simp
next
  case (Cons t ts)
  show ?case
  proof (cases "resolve h a (toState t)")
    case None
    then have "closure_visit h a t (c, s) = (c, s)"
      by (simp add: closure_visit_def)
    with Cons.prems have "fold (closure_visit h a) ts (c, s) = (c', s')"
      by simp
    from Cons.IH [OF this] None show ?thesis by auto
  next
    case (Some r)
    show ?thesis
    proof (cases "r \<in> set c")
      case True
      with Some have "closure_visit h a t (c, s) = (c, s)"
        by (simp add: closure_visit_def)
      with Cons.prems have "fold (closure_visit h a) ts (c, s) = (c', s')"
        by simp
      from Cons.IH [OF this] Some True show ?thesis by auto
    next
      case False
      with Some have "closure_visit h a t (c, s) = (c @ [r], s @ [Obj r])"
        by (simp add: closure_visit_def)
      with Cons.prems have "fold (closure_visit h a) ts (c @ [r], s @ [Obj r]) = (c', s')"
        by simp
      from Cons.IH [OF this] obtain new where
        new: "c' = (c @ [r]) @ new" "s' = (s @ [Obj r]) @ map Obj new"
          "set new = {r. \<exists>t \<in> set ts. resolve h a (toState t) = Some r} - set (c @ [r])"
        by blast
      have "c' = c @ (r # new)" "s' = s @ map Obj (r # new)"
        using new by simp_all
      moreover have "set (r # new) =
          {r. \<exists>t \<in> set (t # ts). resolve h a (toState t) = Some r} - set c"
        using new(3) Some False by auto
      ultimately show ?thesis by blast
    qed
  qed
qed

lemma finite_targets: "finite (targets h a)"
proof -
  have "targets h a \<subseteq> (\<lambda>t. the (resolve h a (toState t))) ` set (transitions a)"
    by (force simp: targets_def)
  then show ?thesis by (rule finite_subset) simp
qed

lemma epsilonClosure_loop_decreases:
  assumes "fold (closure_visit h a) (filter isEpsilon (getTransitionsFrom h a x)) (c, s) = (c', s')"
  shows "card (targets h a - set c') < card (targets h a - set c) \<or>
         (c' = c \<and> s' = s)"
proof -
  from fold_closure_visit [OF assms] obtain new where
    new: "c' = c @ new" "s' = s @ map Obj new"
      "set new = {r. \<exists>t \<in> set (filter isEpsilon (getTransitionsFrom h a x)).
                   resolve h a (toState t) = Some r} - set c"
    by blast
  show ?thesis
  proof (cases new)
    case Nil
    with new show ?thesis by simp
  next
    case (Cons r rs)
    then have r: "r \<in> set new" by simp
    with new(3) have "r \<in> targets h a" "r \<notin> set c"
      by (auto simp: targets_def getTransitionsFrom_def)
    then have "targets h a - set c' \<subset> targets h a - set c"
      using new(1) r by auto
    then show ?thesis
      by (simp add: psubset_card_mono finite_targets)
  qed
qed

function epsilonClosure_loop ::
  "(ref \<Rightarrow> State) \<Rightarrow> 'a Automaton_scheme \<Rightarrow> ref list \<Rightarrow> endpoint list \<Rightarrow> ref list" where
  "epsilonClosure_loop h a clos stack =
     (if length stack = 0 then clos
      else (case resolve h a (last stack) of
              None \<Rightarrow> epsilonClosure_loop h a clos (butlast stack)
            | Some currentState \<Rightarrow>
                (let epsilonTransitions = filter isEpsilon (getTransitionsFrom h a currentState);
                     (clos1, stack1) = fold (closure_visit h a) epsilonTransitions (clos, butlast stack)
                 in epsilonClosure_loop h a clos1 stack1)))"
  by pat_completeness auto

termination
proof (relation "measures [\<lambda>(h, a, clos, stack). card (targets h a - set clos),
                          \<lambda>(h, a, clos, stack). length stack]", goal_cases)
  case 1
  then show ?case by simp
next
  case (2 h a clos stack)
  then show ?case by (cases stack rule: rev_cases) simp_all
next
  case (3 h a clos stack x2 x xa xb y)
  then have "fold (closure_visit h a) (filter isEpsilon (getTransitionsFrom h a x2))
               (clos, butlast stack) = (xb, y)"
    by simp
  from epsilonClosure_loop_decreases [OF this] 3(1) show ?case
    by (cases stack rule: rev_cases) auto
qed

declare epsilonClosure_loop.simps [simp del]

definition epsilonClosure ::
  "(ref \<Rightarrow> State) \<Rightarrow> 'a Automaton_scheme \<Rightarrow> endpoint list \<Rightarrow> ref list" where
  "epsilonClosure h a sts =
     epsilonClosure_loop h a
       (fold (\<lambda>s clos. case resolve h a s of None \<Rightarrow> clos | Some st \<Rightarrow> set_add st clos) sts [])
       sts"

subsection \<open>Simulation\<close>

definition NFA_checkAcceptance ::
  "(ref \<Rightarrow> State) \<Rightarrow> 'a Automaton_scheme \<Rightarrow> 'a Automaton_scheme" where
  "NFA_checkAcceptance h a =
     (if inputIndex a < length (input a) then a\<lparr>isAccepted := Some False\<rparr>
      else if \<exists>s \<in> set (currentStates a). \<exists>f \<in> set (getFinalStates h a).
                state_id (h f) = state_id (h s)
      then a\<lparr>isAccepted := Some True\<rparr>
      else a\<lparr>isAccepted := Some False\<rparr>)"

definition NFA_initSimulation ::
  "(ref \<Rightarrow> State) \<Rightarrow> 'a Automaton_scheme \<Rightarrow> jsstring \<Rightarrow> 'a Automaton_scheme" where
  "NFA_initSimulation h a inp =
     (let a1 = a\<lparr>input := inp, inputIndex := 0, trace := [], isRunning := False,
                 isAccepted := None, currentStates := []\<rparr>
      in (case initialState a1 of
            None \<Rightarrow> a1
          | Some i \<Rightarrow>
              (let cs = fold set_add (epsilonClosure h a1 [Obj i]) (currentStates a1)
               in a1\<lparr>currentStates := cs,
                     trace := trace a1 @
                       [\<lparr>te_step = 0, te_states = map (\<lambda>s. name (h s)) cs, te_tape = None,
                         te_headPosition = None, te_symbol = None,
                         te_description = Start\<rparr>]\<rparr>)))"

text \<open>
  The two nested \<open>forEach\<close> loops of \<open>NFA.step\<close>: the targets of the transitions that
  accept the symbol (\<open>nextStates\<close>) and those transitions (\<open>usedTransitions\<close>).
\<close>

definition NFA_moves ::
  "(ref \<Rightarrow> State) \<Rightarrow> 'a Automaton_scheme \<Rightarrow> jsstring \<Rightarrow> ref list \<times> Transition list" where
  "NFA_moves h a symbol =
     fold (\<lambda>currentState acc.
             fold (\<lambda>t (nextStates, usedTransitions).
                     if accepts t (Some symbol)
                     then (case resolve h a (toState t) of
                             None \<Rightarrow> (nextStates, usedTransitions)
                           | Some toS \<Rightarrow> (set_add toS nextStates, usedTransitions @ [t]))
                     else (nextStates, usedTransitions))
                  (getTransitionsFrom h a currentState) acc)
          (currentStates a) ([], [])"

definition closeStates ::
  "(ref \<Rightarrow> State) \<Rightarrow> 'a Automaton_scheme \<Rightarrow> ref list \<Rightarrow> ref list" where
  "closeStates h a nextStates =
     fold (\<lambda>state closed. fold set_add (epsilonClosure h a [Obj state]) closed) nextStates []"

definition NFA_step ::
  "(ref \<Rightarrow> State) \<Rightarrow> 'a Automaton_scheme \<Rightarrow> error + bool \<times> 'a Automaton_scheme" where
  "NFA_step h a =
     (if inputIndex a \<ge> length (input a) \<or> length (currentStates a) = 0
      then Inr (False, NFA_checkAcceptance h (a\<lparr>isRunning := False\<rparr>))
      else
        (let symbol = [input a ! inputIndex a];
             (nextStates, usedTransitions) = NFA_moves h a symbol;
             closedNextStates = closeStates h a nextStates;
             a1 = a\<lparr>currentStates := closedNextStates,
                    trace := trace a @
                      [\<lparr>te_step = inputIndex a + 1,
                        te_states = map (\<lambda>s. name (h s)) closedNextStates,
                        te_tape = None, te_headPosition = None, te_symbol = Some symbol,
                        te_description =
                          (if length closedNextStates > 0 then TookTransition
                           else NoTransition)\<rparr>],
                    inputIndex := inputIndex a + 1\<rparr>
         in if length closedNextStates = 0
            then Inr (False, a1\<lparr>isAccepted := Some False, isRunning := False\<rparr>)
            else Inr (True, a1)))"

text \<open>\<open>accepts(input)\<close>: \<open>initSimulation\<close>, then \<open>run()\<close> with its default budget.\<close>

definition NFA_accepts ::
  "(ref \<Rightarrow> State) \<Rightarrow> 'a Automaton_scheme \<Rightarrow> jsstring \<Rightarrow> error + bool option" where
  "NFA_accepts h a inp =
     map_sum id isAccepted
       (Automaton_run (NFA_step h) (NFA_checkAcceptance h) 1000 (NFA_initSimulation h a inp))"

subsection \<open>Subset construction\<close>

text \<open>
  The key of a set of NFA states in \<open>stateMap\<close>:
  \<open>Array.from(set).map(s => s.id).sort().join(',')\<close>. The default \<open>sort\<close> compares the
  ids as strings, code unit by code unit.
\<close>

definition ids_key :: "(ref \<Rightarrow> State) \<Rightarrow> ref list \<Rightarrow> jsstring" where
  "ids_key h ss = join (sort (map (\<lambda>s. number_toString (state_id (h s))) ss)) [44]"

definition set_name :: "(ref \<Rightarrow> State) \<Rightarrow> ref list \<Rightarrow> jsstring" where
  "set_name h ss = [123] @ join (map (\<lambda>s. name (h s)) ss) [44] @ [125]"

record toDFA_vars =
  td_world :: world
  td_dfa :: Automaton
  td_stateMap :: "(jsstring \<times> ref) list"
  td_queue :: "(ref list \<times> ref) list"
  td_xOffset :: real

text \<open>The body of \<open>this.alphabet.forEach\<close> for one symbol.\<close>

definition toDFA_symbol ::
  "'a Automaton_scheme \<Rightarrow> ref list \<Rightarrow> ref \<Rightarrow> jsstring \<Rightarrow> toDFA_vars \<Rightarrow> toDFA_vars" where
  "toDFA_symbol nfa nfaStates dfaState symbol v =
     (if symbol = EPSILON then v
      else
        (let h = heap (td_world v);
             nextStates =
               fold (\<lambda>nfaState ns.
                       fold (\<lambda>t ns1.
                               if accepts t (Some symbol)
                               then (case resolve h nfa (toState t) of
                                       None \<Rightarrow> ns1
                                     | Some toS \<Rightarrow> set_add toS ns1)
                               else ns1)
                            (getTransitionsFrom h nfa nfaState) ns)
                    nfaStates []
         in if length nextStates = 0 then v
            else
              (let closedNext = closeStates h nfa nextStates;
                   nextIds = ids_key h closedNext;
                   (nextDFAState, v1) =
                     (case map_of (td_stateMap v) nextIds of
                        Some d \<Rightarrow> (d, v)
                      | None \<Rightarrow>
                          (let (d, w1) =
                                 new_State (td_world v)
                                   (no_State_options
                                      \<lparr>opt_name := Some (set_name h closedNext),
                                       opt_x := Some (td_xOffset v),
                                       opt_y := Some (200 +
                                          real (length (td_stateMap v) mod 3) * 100),
                                       opt_isFinal :=
                                          Some (\<exists>s \<in> set closedNext. isFinal (h s))\<rparr>);
                               (w2, dfa1) = addState w1 (td_dfa v) d
                           in (d, v\<lparr>td_world := w2, td_dfa := dfa1,
                                    td_stateMap := td_stateMap v @ [(nextIds, d)],
                                    td_queue := td_queue v @ [(closedNext, d)],
                                    td_xOffset := td_xOffset v + 150\<rparr>)));
                   (t, w3) =
                     new_Transition (td_world v1)
                       \<lparr>topt_id = None, topt_fromState = Obj dfaState,
                        topt_toState = Obj nextDFAState, topt_symbols = Some [symbol],
                        topt_stackRead = None, topt_stackWrite = None,
                        topt_readSymbol = None, topt_writeSymbol = None,
                        topt_direction = None\<rparr>
               in v1\<lparr>td_world := w3, td_dfa := addTransition (td_dfa v1) t\<rparr>)))"

text \<open>The worklist loop \<open>while (queue.length > 0)\<close>; \<open>shift\<close> takes the first element.\<close>

partial_function (option) toDFA_loop :: "'a Automaton_scheme \<Rightarrow> toDFA_vars \<Rightarrow> toDFA_vars option" where
  "toDFA_loop nfa v =
     (case td_queue v of
        [] \<Rightarrow> Some v
      | (nfaStates, dfaState) # rest \<Rightarrow>
          toDFA_loop nfa
            (fold (toDFA_symbol nfa nfaStates dfaState) (alphabet nfa) (v\<lparr>td_queue := rest\<rparr>)))"

definition toDFA :: "world \<Rightarrow> 'a Automaton_scheme \<Rightarrow> (world \<times> Automaton) option" where
  "toDFA w nfa =
     (let dfa = new_Automaton DFA_type;
          initialClosure =
            epsilonClosure (heap w) nfa
              [case initialState nfa of None \<Rightarrow> Undefined | Some i \<Rightarrow> Obj i];
          initialIds = ids_key (heap w) initialClosure;
          (initialDFAState, w1) =
            new_State w
              (no_State_options
                 \<lparr>opt_name := Some (set_name (heap w) initialClosure),
                  opt_x := Some 100, opt_y := Some 200, opt_isInitial := Some True,
                  opt_isFinal := Some (\<exists>s \<in> set initialClosure. isFinal (heap w s))\<rparr>);
          (w2, dfa1) = addState w1 dfa initialDFAState
      in (case toDFA_loop nfa
                 \<lparr>td_world = w2, td_dfa = dfa1, td_stateMap = [(initialIds, initialDFAState)],
                  td_queue = [(initialClosure, initialDFAState)], td_xOffset = 200\<rparr> of
            None \<Rightarrow> None
          | Some v \<Rightarrow> Some (td_world v, td_dfa v)))"

declare toDFA_loop.simps [code]

section \<open>PDA\<close>

text \<open>A configuration \<open>{ state, stack, inputIndex }\<close>; the top of the stack is the last element.\<close>

record configuration =
  cfg_state :: ref
  cfg_stack :: "jsstring list"
  cfg_inputIndex :: nat

record PDA = Automaton +
  stack :: "jsstring list"
  stackAlphabet :: "jsstring list"
  initialStackSymbol :: jsstring
  acceptByFinalState :: bool
  acceptByEmptyStack :: bool
  configurations :: "configuration list"

text \<open>The constructor: \<open>Z\<close> is the code unit 90.\<close>

definition new_PDA :: PDA where
  "new_PDA =
     \<lparr>atype = PDA_type, states = [], transitions = [], alphabet = [], initialState = None,
      currentStates = [], input = [], inputIndex = 0, trace = [], isRunning = False,
      isAccepted = None, stack = [], stackAlphabet = [[90]], initialStackSymbol = [90],
      acceptByFinalState = True, acceptByEmptyStack = False, configurations = []\<rparr>"

definition PDA_checkAcceptance :: "(ref \<Rightarrow> State) \<Rightarrow> PDA \<Rightarrow> PDA" where
  "PDA_checkAcceptance h p =
     (let finalConfigs = filter (\<lambda>c. cfg_inputIndex c \<ge> length (input p)) (configurations p)
      in if length finalConfigs = 0 then p\<lparr>isAccepted := Some False\<rparr>
         else if acceptByFinalState p \<and>
                 (\<exists>config \<in> set finalConfigs. \<exists>f \<in> set (getFinalStates h p).
                    state_id (h f) = state_id (h (cfg_state config)))
         then p\<lparr>isAccepted := Some True\<rparr>
         else if acceptByEmptyStack p \<and>
                 (\<exists>config \<in> set finalConfigs. length (cfg_stack config) = 0)
         then p\<lparr>isAccepted := Some True\<rparr>
         else p\<lparr>isAccepted := Some False\<rparr>)"

section \<open>Turing machine\<close>

record TuringMachine = Automaton +
  tape :: "jsstring option list"
  headPosition :: int
  blankSymbol :: jsstring
  tapeAlphabet :: "jsstring list"
  visibleTapeStart :: int
  visibleTapeEnd :: int

definition new_TuringMachine :: TuringMachine where
  "new_TuringMachine =
     \<lparr>atype = TM_type, states = [], transitions = [], alphabet = [], initialState = None,
      currentStates = [], input = [], inputIndex = 0, trace = [], isRunning = False,
      isAccepted = None, tape = [], headPosition = 0, blankSymbol = BLANK,
      tapeAlphabet = [BLANK], visibleTapeStart = - 10, visibleTapeEnd = 10\<rparr>"

definition initializeTape :: "TuringMachine \<Rightarrow> jsstring \<Rightarrow> TuringMachine" where
  "initializeTape tm inp =
     (let before = replicate (nat (0 - visibleTapeStart tm)) (Some (blankSymbol tm));
          chars = (if length inp > 0 then code_points inp else []);
          after = replicate (nat (visibleTapeEnd tm + 1 - int (length inp))) (Some (blankSymbol tm))
      in tm\<lparr>tape := before @ map Some chars @ after,
             tapeAlphabet := fold set_add chars (tapeAlphabet tm),
             headPosition := - visibleTapeStart tm\<rparr>)"

definition getTapeCell :: "TuringMachine \<Rightarrow> int \<Rightarrow> jsstring option" where
  "getTapeCell tm position =
     (let index = position - visibleTapeStart tm
      in if index < 0 \<or> index \<ge> int (length (tape tm)) then Some (blankSymbol tm)
         else tape tm ! nat index)"

text \<open>
  \<open>setTapeCell\<close> computes \<open>index\<close> once, as a constant. Its first loop
  \<open>while (index < 0)\<close> changes the tape, \<open>visibleTapeStart\<close> and \<open>headPosition\<close> but
  never \<open>index\<close>; not returning is the value \<open>None\<close>. Its second loop ends when the
  array has grown past \<open>index\<close>.
\<close>

partial_function (option) extend_left :: "int \<Rightarrow> TuringMachine \<Rightarrow> TuringMachine option" where
  "extend_left index tm =
     (if index < 0
      then extend_left index
             (tm\<lparr>tape := Some (blankSymbol tm) # tape tm,
                 visibleTapeStart := visibleTapeStart tm - 1,
                 headPosition := headPosition tm + 1\<rparr>)
      else Some tm)"

function extend_right :: "int \<Rightarrow> TuringMachine \<Rightarrow> TuringMachine" where
  "extend_right index tm =
     (if index \<ge> int (length (tape tm))
      then extend_right index
             (tm\<lparr>tape := tape tm @ [Some (blankSymbol tm)],
                 visibleTapeEnd := visibleTapeEnd tm + 1\<rparr>)
      else tm)"
  by pat_completeness auto

termination
  by (relation "measure (\<lambda>(index, tm). nat (index + 1 - int (length (tape tm))))") auto

declare extend_right.simps [simp del]

definition setTapeCell :: "TuringMachine \<Rightarrow> int \<Rightarrow> jsstring \<Rightarrow> TuringMachine option" where
  "setTapeCell tm position symbol =
     (let index = position - visibleTapeStart tm
      in (case extend_left index tm of
            None \<Rightarrow> None
          | Some tm1 \<Rightarrow>
              (let tm2 = extend_right index tm1
               in Some (tm2\<lparr>tape := array_set (tape tm2) index (Some symbol),
                            tapeAlphabet := set_add symbol (tapeAlphabet tm2)\<rparr>))))"

definition getCurrentSymbol :: "TuringMachine \<Rightarrow> jsstring option" where
  "getCurrentSymbol tm = getTapeCell tm (headPosition tm + visibleTapeStart tm)"

text \<open>\<open>tape.join('')\<close>: an \<open>undefined\<close> element contributes the empty string.\<close>

definition getTapeString :: "TuringMachine \<Rightarrow> jsstring" where
  "getTapeString tm = concat (map (\<lambda>c. case c of None \<Rightarrow> [] | Some s \<Rightarrow> s) (tape tm))"

definition TM_initSimulation :: "(ref \<Rightarrow> State) \<Rightarrow> TuringMachine \<Rightarrow> jsstring \<Rightarrow> TuringMachine" where
  "TM_initSimulation h tm inp =
     (let tm1 = tm\<lparr>input := inp, inputIndex := 0, trace := [], isRunning := False,
                   isAccepted := None, currentStates := [], visibleTapeStart := - 10,
                   visibleTapeEnd := max 10 (int (length inp) + 10)\<rparr>;
          tm2 = initializeTape tm1 inp
      in (case initialState tm2 of
            None \<Rightarrow> tm2
          | Some i \<Rightarrow>
              tm2\<lparr>currentStates := set_add i (currentStates tm2),
                  trace := trace tm2 @
                    [\<lparr>te_step = 0, te_states = [name (h i)], te_tape = Some (getTapeString tm2),
                      te_headPosition = Some 0, te_symbol = getCurrentSymbol tm2,
                      te_description = Start\<rparr>]\<rparr>))"

definition TM_checkAcceptance :: "(ref \<Rightarrow> State) \<Rightarrow> TuringMachine \<Rightarrow> TuringMachine" where
  "TM_checkAcceptance h tm =
     (if length (currentStates tm) = 0 then tm\<lparr>isAccepted := Some False\<rparr>
      else
        (let currentState = currentStates tm ! 0
         in if isFinal (h currentState) \<or> isHalt (h currentState)
            then tm\<lparr>isAccepted := Some (isFinal (h currentState))\<rparr>
            else tm\<lparr>isAccepted := Some False\<rparr>))"


definition move_head :: "TuringMachine \<Rightarrow> jsstring \<Rightarrow> TuringMachine" where
  "move_head tm dir =
     (if dir = [76]
      then (let tm1 = tm\<lparr>headPosition := headPosition tm - 1\<rparr>
            in if headPosition tm1 < 0
               then tm1\<lparr>tape := Some (blankSymbol tm1) # tape tm1, headPosition := 0,
                        visibleTapeStart := visibleTapeStart tm1 - 1\<rparr>
               else tm1)
      else if dir = [82]
      then (let tm1 = tm\<lparr>headPosition := headPosition tm + 1\<rparr>
            in if headPosition tm1 \<ge> int (length (tape tm1))
               then tm1\<lparr>tape := tape tm1 @ [Some (blankSymbol tm1)],
                        visibleTapeEnd := visibleTapeEnd tm1 + 1\<rparr>
               else tm1)
      else tm)"











section \<open>Structured serialisation\<close>

text \<open>
  \<open>State.toJSON\<close> copies the seven fields \<open>id, name, x, y, isInitial, isFinal, isHalt\<close>:
  the serialised state is a \<open>State\<close> value. \<open>Transition.toJSON\<close> replaces the endpoints
  by their ids.
\<close>

definition State_toJSON :: "State \<Rightarrow> State" where
  "State_toJSON s =
     \<lparr>state_id = state_id s, name = name s, pos_x = pos_x s, pos_y = pos_y s,
      isInitial = isInitial s, isFinal = isFinal s, isHalt = isHalt s\<rparr>"

definition State_fromJSON :: "world \<Rightarrow> State \<Rightarrow> ref \<times> world" where
  "State_fromJSON w json =
     new_State w
       \<lparr>opt_id = Some (state_id json), opt_name = Some (name json), opt_x = Some (pos_x json),
        opt_y = Some (pos_y json), opt_isInitial = Some (isInitial json),
        opt_isFinal = Some (isFinal json), opt_isHalt = Some (isHalt json)\<rparr>"

record Transition_json =
  tj_id :: int
  tj_fromState :: "int option"
  tj_toState :: "int option"
  tj_symbols :: "jsstring list"
  tj_stackRead :: "jsstring option"
  tj_stackWrite :: "jsstring option"
  tj_readSymbol :: "jsstring option"
  tj_writeSymbol :: "jsstring option"
  tj_direction :: "jsstring option"

definition Transition_toJSON :: "(ref \<Rightarrow> State) \<Rightarrow> Transition \<Rightarrow> Transition_json" where
  "Transition_toJSON h t =
     \<lparr>tj_id = trans_id t, tj_fromState = getFromStateId h t, tj_toState = getToStateId h t,
      tj_symbols = symbols t, tj_stackRead = stackRead t, tj_stackWrite = stackWrite t,
      tj_readSymbol = readSymbol t, tj_writeSymbol = writeSymbol t,
      tj_direction = direction t\<rparr>"

text \<open>\<open>states.find(s => s.id === id)\<close>, \<open>undefined\<close> when there is none.\<close>

definition find_endpoint :: "(ref \<Rightarrow> State) \<Rightarrow> ref list \<Rightarrow> int option \<Rightarrow> endpoint" where
  "find_endpoint h sts i =
     (case find (\<lambda>s. Some (state_id (h s)) = i) sts of None \<Rightarrow> Undefined | Some s \<Rightarrow> Obj s)"

definition Transition_fromJSON :: "world \<Rightarrow> Transition_json \<Rightarrow> ref list \<Rightarrow> Transition \<times> world" where
  "Transition_fromJSON w json sts =
     new_Transition w
       \<lparr>topt_id = Some (tj_id json),
        topt_fromState = find_endpoint (heap w) sts (tj_fromState json),
        topt_toState = find_endpoint (heap w) sts (tj_toState json),
        topt_symbols = Some (tj_symbols json),
        topt_stackRead = tj_stackRead json, topt_stackWrite = tj_stackWrite json,
        topt_readSymbol = tj_readSymbol json, topt_writeSymbol = tj_writeSymbol json,
        topt_direction = tj_direction json\<rparr>"

record Automaton_json =
  j_type :: machine_type
  j_states :: "State list"
  j_transitions :: "Transition_json list"
  j_alphabet :: "jsstring list"
  j_initialStateId :: "int option"

definition Automaton_toJSON :: "(ref \<Rightarrow> State) \<Rightarrow> 'a Automaton_scheme \<Rightarrow> Automaton_json" where
  "Automaton_toJSON h a =
     \<lparr>j_type = atype a,
      j_states = map (\<lambda>s. State_toJSON (h s)) (states a),
      j_transitions = map (Transition_toJSON h) (transitions a),
      j_alphabet = alphabet a,
      j_initialStateId = (case initialState a of None \<Rightarrow> None | Some i \<Rightarrow> Some (state_id (h i)))\<rparr>"

text \<open>
  The type tag is one of four non-empty strings, so \<open>json.type || 'dfa'\<close> is the tag;
  an array is truthy, so \<open>json.alphabet || []\<close> is the array.
\<close>

definition Automaton_loadFromJSON ::
  "world \<Rightarrow> 'a Automaton_scheme \<Rightarrow> 'b Automaton_json_scheme \<Rightarrow> world \<times> 'a Automaton_scheme" where
  "Automaton_loadFromJSON w a json =
     (let w1 = w\<lparr>State_nextId := 0, Transition_nextId := 0\<rparr>;
          (sts, w2) =
            fold (\<lambda>s (acc, wa). let (r, wb) = State_fromJSON wa s in (acc @ [r], wb))
                 (j_states json) ([], w1);
          (trs, w3) =
            fold (\<lambda>t (acc, wa). let (tr, wb) = Transition_fromJSON wa t sts in (acc @ [tr], wb))
                 (j_transitions json) ([], w2);
          a1 = a\<lparr>atype := j_type json, states := sts, transitions := trs,
                 alphabet := Set_of (j_alphabet json)\<rparr>;
          a2 = a1\<lparr>initialState :=
                 (case j_initialStateId json of
                    Some i \<Rightarrow> getState (heap w3) a1 i
                  | None \<Rightarrow> find (\<lambda>s. isInitial (heap w3 s)) sts)\<rparr>;
          w4 = (if length sts > 0
                then w3\<lparr>State_nextId := Math_max (map (\<lambda>s. state_id (heap w3 s)) sts) + 1\<rparr>
                else w3);
          w5 = (if length trs > 0
                then w4\<lparr>Transition_nextId := Math_max (map trans_id trs) + 1\<rparr>
                else w4)
      in (w5, resetSimulation a2))"

record PDA_json = Automaton_json +
  j_initialStackSymbol :: jsstring
  j_acceptByFinalState :: bool
  j_acceptByEmptyStack :: bool
  j_stackAlphabet :: "jsstring list"

definition PDA_toJSON :: "(ref \<Rightarrow> State) \<Rightarrow> PDA \<Rightarrow> PDA_json" where
  "PDA_toJSON h p =
     Automaton_json.extend (Automaton_toJSON h p)
       (PDA_json.fields (initialStackSymbol p) (acceptByFinalState p) (acceptByEmptyStack p)
          (stackAlphabet p))"

definition PDA_loadFromJSON :: "world \<Rightarrow> PDA \<Rightarrow> PDA_json \<Rightarrow> world \<times> PDA" where
  "PDA_loadFromJSON w p json =
     (let (w1, p1) = Automaton_loadFromJSON w p json
      in (w1, p1\<lparr>initialStackSymbol := string_or (Some (j_initialStackSymbol json)) [90],
                 acceptByFinalState := (j_acceptByFinalState json \<noteq> False),
                 acceptByEmptyStack := (j_acceptByEmptyStack json \<or> False),
                 stackAlphabet := Set_of (j_stackAlphabet json)\<rparr>))"

record TuringMachine_json = Automaton_json +
  j_blankSymbol :: jsstring
  j_tapeAlphabet :: "jsstring list"

definition TM_toJSON :: "(ref \<Rightarrow> State) \<Rightarrow> TuringMachine \<Rightarrow> TuringMachine_json" where
  "TM_toJSON h tm =
     Automaton_json.extend (Automaton_toJSON h tm)
       (TuringMachine_json.fields (blankSymbol tm) (tapeAlphabet tm))"

definition TM_loadFromJSON ::
  "world \<Rightarrow> TuringMachine \<Rightarrow> TuringMachine_json \<Rightarrow> world \<times> TuringMachine" where
  "TM_loadFromJSON w tm json =
     (let (w1, tm1) = Automaton_loadFromJSON w tm json
      in (w1, tm1\<lparr>blankSymbol := string_or (Some (j_blankSymbol json)) BLANK,
                  tapeAlphabet := Set_of (j_tapeAlphabet json)\<rparr>))"

section \<open>Example automata\<close>

text \<open>
  A store of State objects as the editor creates them: object \<open>r\<close> has id \<open>r\<close> and name
  \<open>q\<close>\<open>r\<close>, and only object 1 is final. No object is flagged initial before it is added
  to an automaton.
\<close>

definition example_world :: world where
  "example_world =
     \<lparr>heap = (\<lambda>r. \<lparr>state_id = int r, name = 113 # number_toString (int r), pos_x = 100,
                     pos_y = 100, isInitial = False, isFinal = (r = 1), isHalt = False\<rparr>),
      nextRef = 2, State_nextId = 2, Transition_nextId = 1\<rparr>"

definition example_transition :: "ref \<Rightarrow> ref \<Rightarrow> jsstring list \<Rightarrow> Transition" where
  "example_transition f t ss =
     \<lparr>trans_id = 0, fromState = Obj f, toState = Obj t, symbols = ss, stackRead = None,
      stackWrite = None, readSymbol = None, writeSymbol = None, direction = None\<rparr>"

text \<open>An automaton with the two states q0 (initial) and q1 and no transition.\<close>

definition two_states :: "world \<times> Automaton" where
  "two_states = mutations (example_world, new_Automaton NFA_type) [AddState 0, AddState 1]"

text \<open>The NFA with states q0 (initial) and q1 (final) and the transition q0 -epsilon-> q1.\<close>

definition epsilon_nfa :: "world \<times> Automaton" where
  "epsilon_nfa =
     mutations (example_world, new_Automaton NFA_type)
       [AddState 0, AddState 1, AddTransition (example_transition 0 1 [EPSILON])]"

text \<open>The loop on \<open>a\<close> at the state \<open>r\<close>, with the transition id \<open>i\<close>.\<close>

definition a_loop :: "ref \<Rightarrow> int \<Rightarrow> Transition" where
  "a_loop r i = (example_transition r r [[97]])\<lparr>trans_id := i\<rparr>"

text \<open>The DFA with the single state q1 (initial and final) and the loop q1 -a-> q1.\<close>

definition loop_dfa :: "world \<times> Automaton" where
  "loop_dfa =
     mutations (example_world, new_Automaton DFA_type)
       [AddState 1, AddTransition (example_transition 1 1 [[97]])]"

text \<open>The same automaton, as an NFA.\<close>

definition loop_nfa :: "world \<times> Automaton" where
  "loop_nfa =
     mutations (example_world, new_Automaton NFA_type)
       [AddState 1, AddTransition (example_transition 1 1 [[97]])]"

text \<open>An automaton whose only state lies at x = 0.\<close>

definition origin_world :: world where
  "origin_world =
     example_world\<lparr>heap := (heap example_world)(0 := (heap example_world 0)\<lparr>pos_x := 0\<rparr>)\<rparr>"

definition origin_automaton :: "world \<times> Automaton" where
  "origin_automaton = mutations (origin_world, new_Automaton DFA_type) [AddState 0]"

definition origin_reloaded :: "world \<times> Automaton" where
  "origin_reloaded =
     Automaton_loadFromJSON (fst origin_automaton) (snd origin_automaton)
       (Automaton_toJSON (heap (fst origin_automaton)) (snd origin_automaton))"






text \<open>
  An NFA with four states: q0 -epsilon-> q1, q1 -a-> q2, and an epsilon transition without
  symbols from q2 to q3 whose endpoints are bare ids.
\<close>

definition chain_nfa :: "world \<times> Automaton" where
  "chain_nfa =
     mutations (example_world, new_Automaton NFA_type)
       [AddState 0, AddState 1, AddState 2, AddState 3,
        AddTransition (example_transition 0 1 [EPSILON]),
        AddTransition ((example_transition 1 2 [[97]])\<lparr>trans_id := 1\<rparr>),
        AddTransition
          ((example_transition 2 3 [])\<lparr>trans_id := 2, fromState := Num 2, toState := Num 3\<rparr>)]"

text \<open>
  Two NFAs with the states q0 and q1 and one transition q0 -> q1 that lists the letter
  \<open>a\<close> next to a spelling of epsilon: the epsilon sign in the first, the empty string
  in the second.
\<close>

definition mixed_nfa :: "world \<times> Automaton" where
  "mixed_nfa =
     mutations (example_world, new_Automaton NFA_type)
       [AddState 0, AddState 1, AddTransition (example_transition 0 1 [EPSILON, [97]])]"

definition blank_mixed_nfa :: "world \<times> Automaton" where
  "blank_mixed_nfa =
     mutations (example_world, new_Automaton NFA_type)
       [AddState 0, AddState 1, AddTransition (example_transition 0 1 [[], [97]])]"

text \<open>
  A PDA with two State objects that carry the same id 0: object 0 is final, object 1 is
  the initial state and is not final. On the empty input \<open>initSimulation\<close> creates
  the one configuration \<open>(object 1, [Z], 0)\<close>.
\<close>

definition twin_heap :: "ref \<Rightarrow> State" where
  "twin_heap r =
     \<lparr>state_id = 0, name = [113, 48], pos_x = 100, pos_y = 100, isInitial = (r = 1),
      isFinal = (r = 0), isHalt = False\<rparr>"

definition twin_config :: configuration where
  "twin_config = \<lparr>cfg_state = 1, cfg_stack = [[90]], cfg_inputIndex = 0\<rparr>"

definition twin_pda :: PDA where
  "twin_pda =
     new_PDA\<lparr>states := [0, 1], initialState := Some 1, currentStates := [1],
             stack := [[90]], configurations := [twin_config]\<rparr>"

text \<open>
  A PDA over the example store (ids 0 and 1, only q1 final) with one configuration in
  each state, both on the empty input.
\<close>

definition one_final_pda :: PDA where
  "one_final_pda =
     new_PDA\<lparr>states := [0, 1], initialState := Some 0,
             configurations :=
               [\<lparr>cfg_state = 0, cfg_stack = [[90]], cfg_inputIndex = 0\<rparr>,
                \<lparr>cfg_state = 1, cfg_stack = [[90]], cfg_inputIndex = 0\<rparr>]\<rparr>"










section \<open>Predicates of the properties\<close>

text \<open>The states of the automaton whose \<open>isInitial\<close> flag is set are all the same object.\<close>

definition at_most_one_initial :: "world \<times> 'a Automaton_scheme \<Rightarrow> bool" where
  "at_most_one_initial wa =
     (\<forall>r \<in> set (states (snd wa)). \<forall>r' \<in> set (states (snd wa)).
        isInitial (heap (fst wa) r) \<and> isInitial (heap (fst wa) r') \<longrightarrow> r = r')"

text \<open>
  The invariant behind it: a state of the automaton that is flagged initial is the
  object \<open>initialState\<close> points at.
\<close>

definition initial_inv :: "world \<times> 'a Automaton_scheme \<Rightarrow> bool" where
  "initial_inv wa =
     (\<forall>r \<in> set (states (snd wa)).
        isInitial (heap (fst wa) r) \<longrightarrow> initialState (snd wa) = Some r)"

text \<open>
  An epsilon transition is a transition without symbols, with the epsilon sign among its
  symbols, or with the empty string as its only symbol. It leaves the state \<open>r\<close> when
  its source endpoint, an object or a bare id, has the id of \<open>r\<close>; it leads to the
  state \<open>r'\<close> when its target endpoint is the object \<open>r'\<close>, or is a bare id and \<open>r'\<close>
  is the first state of the automaton with that id. A set of states is closed under
  following epsilon transitions when no epsilon step leads out of it.
\<close>

definition epsilon_labelled :: "Transition \<Rightarrow> bool" where
  "epsilon_labelled t = (symbols t = [] \<or> EPSILON \<in> set (symbols t) \<or> symbols t = [[]])"

definition leaves :: "(ref \<Rightarrow> State) \<Rightarrow> Transition \<Rightarrow> ref \<Rightarrow> bool" where
  "leaves h t r =
     (case fromState t of
        Obj s \<Rightarrow> state_id (h s) = state_id (h r)
      | Num i \<Rightarrow> i = state_id (h r)
      | Undefined \<Rightarrow> False)"

definition leads_to :: "(ref \<Rightarrow> State) \<Rightarrow> 'a Automaton_scheme \<Rightarrow> Transition \<Rightarrow> ref \<Rightarrow> bool" where
  "leads_to h a t r =
     (case toState t of
        Obj s \<Rightarrow> s = r
      | Num i \<Rightarrow> find (\<lambda>s. state_id (h s) = i) (states a) = Some r
      | Undefined \<Rightarrow> False)"

definition eps_edge :: "(ref \<Rightarrow> State) \<Rightarrow> 'a Automaton_scheme \<Rightarrow> ref \<Rightarrow> ref \<Rightarrow> bool" where
  "eps_edge h a r r' =
     (\<exists>t \<in> set (transitions a). epsilon_labelled t \<and> leaves h t r \<and> leads_to h a t r')"

definition eps_closed :: "(ref \<Rightarrow> State) \<Rightarrow> 'a Automaton_scheme \<Rightarrow> ref set \<Rightarrow> bool" where
  "eps_closed h a T = (\<forall>r \<in> T. \<forall>r'. eps_edge h a r r' \<longrightarrow> r' \<in> T)"

text \<open>
  The states that one pass of the worklist loop finds from \<open>r\<close>, and the sets that
  contain what is found from each of their members. These two follow the loop and serve
  its invariant only.
\<close>

definition pushed_from :: "(ref \<Rightarrow> State) \<Rightarrow> 'a Automaton_scheme \<Rightarrow> ref \<Rightarrow> ref set" where
  "pushed_from h a r =
     set (concat (map (\<lambda>t. case resolve h a (toState t) of None \<Rightarrow> [] | Some r' \<Rightarrow> [r'])
                      (filter isEpsilon (getTransitionsFrom h a r))))"

definition push_closed :: "(ref \<Rightarrow> State) \<Rightarrow> 'a Automaton_scheme \<Rightarrow> ref set \<Rightarrow> bool" where
  "push_closed h a T = (\<forall>r \<in> T. pushed_from h a r \<subseteq> T)"

text \<open>
  The id of the state \<open>s\<close> is the id of a final state among the automaton's states.
\<close>

definition has_final_id :: "(ref \<Rightarrow> State) \<Rightarrow> 'a Automaton_scheme \<Rightarrow> ref \<Rightarrow> bool" where
  "has_final_id h a s = (\<exists>f \<in> set (states a). isFinal (h f) \<and> state_id (h f) = state_id (h s))"

definition consumed_all :: "PDA \<Rightarrow> configuration \<Rightarrow> bool" where
  "consumed_all p c = (cfg_inputIndex c \<ge> length (input p))"







text \<open>
  While the automaton with the single state \<open>r\<close> and the loop on \<open>a\<close> reads a word
  of a's, it stays in \<open>r\<close> and its cursor counts the steps.
\<close>

definition reading :: "ref \<Rightarrow> int \<Rightarrow> jsstring \<Rightarrow> nat \<Rightarrow> Automaton \<Rightarrow> bool" where
  "reading r i inp k a =
     (inputIndex a = k \<and> input a = inp \<and> currentStates a = [r] \<and> states a = [r] \<and>
      transitions a = [a_loop r i])"

section \<open>Subset construction against the NFA (C1)\<close>

text \<open>
  C1. The NFA q0 -epsilon-> q1 (q1 final) accepts the one-character input that consists
  of the epsilon sign: \<open>Transition.accepts\<close> answers true for that character on an epsilon
  transition, so \<open>NFA.step\<close> consumes it. The DFA that \<open>toDFA\<close> builds for this NFA
  has no transition (the alphabet is empty) and rejects the same input.
\<close>

theorem toDFA_differs_on_epsilon_input:
  "NFA_accepts (heap (fst epsilon_nfa)) (snd epsilon_nfa) EPSILON = Inr (Some True) \<and>
   (case toDFA (fst epsilon_nfa) (snd epsilon_nfa) of
      None \<Rightarrow> False
    | Some (w, dfa) \<Rightarrow> DFA_accepts (heap w) dfa EPSILON = Inr (Some False))"
  by code_simp

text \<open>
  A second input on which the two verdicts differ: a word of 1001 letters \<open>a\<close>,
  longer than the default budget of \<open>run\<close>. The NFA with the single state q1 (initial
  and final) and the loop on \<open>a\<close> stops after 1000 steps with input remaining, and
  \<open>NFA.checkAcceptance\<close> rejects; its DFA stops in the same way, and the base
  \<open>checkAcceptance\<close>, which does not look at the cursor, accepts.
\<close>

lemma run_loop_invariant:
  assumes "I k a"
    and "k \<le> maxSteps"
    and "\<And>k a. k < maxSteps \<Longrightarrow> I k a \<Longrightarrow> \<exists>b a'. step a = Inr (b, a') \<and> I (Suc k) a'"
    and "\<And>k a. I k a \<Longrightarrow> inputIndex a < length (input a) \<and> length (currentStates a) > 0"
  shows "\<exists>a'. run_loop step maxSteps k a = Inr a' \<and> I maxSteps a'"
  using assms(1,2)
proof (induction "maxSteps - k" arbitrary: k a)
  case 0
  then have "k = maxSteps" by simp
  with "0.prems"(1) show ?case
    by (subst run_loop.simps) simp
next
  case (Suc n)
  then have k: "k < maxSteps" by simp
  from assms(3) [OF k Suc.prems(1)] obtain b a' where
    st: "step a = Inr (b, a')" "I (Suc k) a'"
    by blast
  have "n = maxSteps - Suc k" "Suc k \<le> maxSteps"
    using Suc.hyps(2) k by simp_all
  from Suc.hyps(1) [OF this(1) st(2) this(2)] obtain a'' where
    r: "run_loop step maxSteps (Suc k) a' = Inr a''" "I maxSteps a''"
    by blast
  have "run_loop step maxSteps k a = run_loop step maxSteps (Suc k) a'"
    using k st(1) assms(4) [OF Suc.prems(1)]
    by (subst run_loop.simps) simp
  with r show ?case by simp
qed

lemma closure_single:
  assumes "transitions a = [a_loop r i]"
  shows "epsilonClosure h a [Obj r] = [r]"
proof -
  have e: "filter isEpsilon (getTransitionsFrom h a r) = []"
    by (simp add: getTransitionsFrom_def assms isEpsilon_def a_loop_def example_transition_def
          EPSILON_def)
  have "epsilonClosure_loop h a [r] [Obj r] = epsilonClosure_loop h a [r] []"
    by (subst epsilonClosure_loop.simps) (simp add: resolve_def e)
  also have "\<dots> = [r]"
    by (subst epsilonClosure_loop.simps) simp
  finally show ?thesis
    by (simp add: epsilonClosure_def resolve_def set_add_def)
qed

lemma accepts_a_loop: "accepts (a_loop r i) (Some [97])"
  by (simp add: accepts_def a_loop_def example_transition_def EPSILON_def)

lemma from_a_loop:
  "transitions a = [a_loop r i] \<Longrightarrow> getTransitionsFrom h a r = [a_loop r i]"
  by (simp add: getTransitionsFrom_def getFromStateId_def endpoint_id_def a_loop_def
        example_transition_def)

lemma NFA_step_reading:
  assumes "reading r i (replicate n 97) k a" and "k < n"
  shows "\<exists>a'. NFA_step h a = Inr (True, a') \<and> reading r i (replicate n 97) (Suc k) a'"
proof -
  from assms(1) have f: "inputIndex a = k" "input a = replicate n 97" "currentStates a = [r]"
    "states a = [r]" "transitions a = [a_loop r i]"
    by (simp_all add: reading_def)
  have mv: "NFA_moves h a [97] = ([r], [a_loop r i])"
    by (simp add: NFA_moves_def f from_a_loop accepts_a_loop resolve_def set_add_def
          a_loop_def [of r i, THEN arg_cong, of toState] example_transition_def)
  have cl: "closeStates h a [r] = [r]"
    by (simp add: closeStates_def closure_single [OF f(5)] set_add_def)
  show ?thesis
    unfolding NFA_step_def
    using assms(2) by (simp add: f mv cl Let_def reading_def)
qed

lemma DFA_step_reading:
  assumes "reading r i (replicate n 97) k a" and "k < n"
  shows "\<exists>a'. DFA_step h a = Inr (True, a') \<and> reading r i (replicate n 97) (Suc k) a'"
proof -
  from assms(1) have f: "inputIndex a = k" "input a = replicate n 97" "currentStates a = [r]"
    "states a = [r]" "transitions a = [a_loop r i]"
    by (simp_all add: reading_def)
  have rs: "resolve h a (toState (a_loop r i)) = Some r"
    by (simp add: resolve_def a_loop_def example_transition_def)
  show ?thesis
    unfolding DFA_step_def
    using assms(2) by (simp add: f from_a_loop accepts_a_loop rs Let_def reading_def)
qed

lemma reading_continues:
  "reading r i (replicate 1001 97) k a \<Longrightarrow> k \<le> 1000 \<Longrightarrow>
   inputIndex a < length (input a) \<and> length (currentStates a) > 0"
  by (simp add: reading_def)

lemma loop_nfa_fields:
  "states (snd loop_nfa) = [1]"
  "transitions (snd loop_nfa) = [a_loop 1 0]"
  "initialState (snd loop_nfa) = Some 1"
  "isFinal (heap (fst loop_nfa) 1)"
  by (simp_all add: loop_nfa_def mutations_def addState_def addTransition_def
        new_Automaton_def example_world_def set_isInitial_def a_loop_def
        example_transition_def)

lemma loop_nfa_rejects_long_input:
  "NFA_accepts (heap (fst loop_nfa)) (snd loop_nfa) (replicate 1001 97) = Inr (Some False)"
proof -
  let ?h = "heap (fst loop_nfa)"
  let ?a0 = "(NFA_initSimulation ?h (snd loop_nfa) (replicate 1001 97))\<lparr>isRunning := True\<rparr>"
  have cl: "epsilonClosure ?h
      ((snd loop_nfa)\<lparr>input := replicate 1001 97, inputIndex := 0, trace := [],
         isRunning := False, isAccepted := None, currentStates := []\<rparr>) [Obj 1] = [1]"
    by (rule closure_single [where i = 0]) (simp add: loop_nfa_fields)
  have i0: "reading 1 0 (replicate 1001 97) 0 ?a0"
    by (simp add: reading_def NFA_initSimulation_def Let_def loop_nfa_fields cl [simplified]
          set_add_def)
  have "\<exists>a'. run_loop (NFA_step ?h) 1000 0 ?a0 = Inr a' \<and> reading 1 0 (replicate 1001 97) 1000 a'"
  proof (rule run_loop_invariant [where I = "\<lambda>k a. reading 1 0 (replicate 1001 97) k a \<and> k \<le> 1000"
          and k = 0 and maxSteps = 1000 and a = ?a0 and step = "NFA_step ?h", THEN exE])
    show "reading 1 0 (replicate 1001 97) 0 ?a0 \<and> (0 :: nat) \<le> 1000"
      using i0 by simp
    show "(0 :: nat) \<le> 1000" by simp
    show "\<exists>b a'. NFA_step ?h a = Inr (b, a') \<and>
            (reading 1 0 (replicate 1001 97) (Suc k) a' \<and> Suc k \<le> 1000)"
      if "k < 1000" "reading 1 0 (replicate 1001 97) k a \<and> k \<le> 1000" for k a
      using NFA_step_reading [of 1 0 1001 k a ?h] that by auto
    show "inputIndex a < length (input a) \<and> length (currentStates a) > 0"
      if "reading 1 0 (replicate 1001 97) k a \<and> k \<le> 1000" for k a
      using that reading_continues by blast
    show "\<exists>a'. run_loop (NFA_step ?h) 1000 0 ?a0 = Inr a' \<and>
            reading 1 0 (replicate 1001 97) 1000 a'"
      if "run_loop (NFA_step ?h) 1000 0 ?a0 = Inr a' \<and>
          (reading 1 0 (replicate 1001 97) 1000 a' \<and> (1000 :: nat) \<le> 1000)" for a'
      using that by blast
  qed
  then obtain a' where
    r: "run_loop (NFA_step ?h) 1000 0 ?a0 = Inr a'" "reading 1 0 (replicate 1001 97) 1000 a'"
    by blast
  then show ?thesis
    by (simp add: NFA_accepts_def Automaton_run_def NFA_checkAcceptance_def reading_def)
qed

lemma loop_nfa_toDFA:
  "(case toDFA (fst loop_nfa) (snd loop_nfa) of
      None \<Rightarrow> False
    | Some (w, d) \<Rightarrow>
        states d = [2] \<and> transitions d = [a_loop 2 1] \<and> initialState d = Some 2 \<and>
        isFinal (heap w 2))"
  by code_simp

lemma loop_dfa_accepts_long_input:
  assumes "states d = [2]" and "transitions d = [a_loop 2 1]" and "initialState d = Some 2"
    and "isFinal (h 2)"
  shows "DFA_accepts h (d :: Automaton) (replicate 1001 97) = Inr (Some True)"
proof -
  let ?a0 = "(Automaton_initSimulation h d (replicate 1001 97))\<lparr>isRunning := True\<rparr>"
  have i0: "reading 2 1 (replicate 1001 97) 0 ?a0"
    by (simp add: reading_def Automaton_initSimulation_def resetSimulation_def Let_def assms
          set_add_def)
  have "\<exists>a'. run_loop (DFA_step h) 1000 0 ?a0 = Inr a' \<and> reading 2 1 (replicate 1001 97) 1000 a'"
  proof (rule run_loop_invariant [where I = "\<lambda>k a. reading 2 1 (replicate 1001 97) k a \<and> k \<le> 1000"
          and k = 0 and maxSteps = 1000 and a = ?a0 and step = "DFA_step h", THEN exE])
    show "reading 2 1 (replicate 1001 97) 0 ?a0 \<and> (0 :: nat) \<le> 1000"
      using i0 by simp
    show "(0 :: nat) \<le> 1000" by simp
    show "\<exists>b a'. DFA_step h a = Inr (b, a') \<and>
            (reading 2 1 (replicate 1001 97) (Suc k) a' \<and> Suc k \<le> 1000)"
      if "k < 1000" "reading 2 1 (replicate 1001 97) k a \<and> k \<le> 1000" for k a
      using DFA_step_reading [of 2 1 1001 k a h] that by auto
    show "inputIndex a < length (input a) \<and> length (currentStates a) > 0"
      if "reading 2 1 (replicate 1001 97) k a \<and> k \<le> 1000" for k a
      using that reading_continues by blast
    show "\<exists>a'. run_loop (DFA_step h) 1000 0 ?a0 = Inr a' \<and>
            reading 2 1 (replicate 1001 97) 1000 a'"
      if "run_loop (DFA_step h) 1000 0 ?a0 = Inr a' \<and>
          (reading 2 1 (replicate 1001 97) 1000 a' \<and> (1000 :: nat) \<le> 1000)" for a'
      using that by blast
  qed
  then obtain a' where
    r: "run_loop (DFA_step h) 1000 0 ?a0 = Inr a'" "reading 2 1 (replicate 1001 97) 1000 a'"
    by blast
  then show ?thesis
    by (simp add: DFA_accepts_def DFA_run_def Automaton_run_def Automaton_checkAcceptance_def
          getFinalStates_def reading_def assms(4))
qed

lemma toDFA_differs_beyond_budget:
  "NFA_accepts (heap (fst loop_nfa)) (snd loop_nfa) (replicate 1001 97) = Inr (Some False) \<and>
   (case toDFA (fst loop_nfa) (snd loop_nfa) of
      None \<Rightarrow> False
    | Some (w, dfa) \<Rightarrow> DFA_accepts (heap w) dfa (replicate 1001 97) = Inr (Some True))"
  using loop_nfa_rejects_long_input loop_nfa_toDFA
  by (auto split: option.splits intro: loop_dfa_accepts_long_input)

section \<open>Acceptance of a PDA (C2)\<close>

lemma PDA_checkAcceptance_by_id:
  "PDA_checkAcceptance h p =
     p\<lparr>isAccepted := Some
        ((acceptByFinalState p \<and>
            (\<exists>c \<in> set (configurations p). consumed_all p c \<and> has_final_id h p (cfg_state c))) \<or>
         (acceptByEmptyStack p \<and>
            (\<exists>c \<in> set (configurations p). consumed_all p c \<and> cfg_stack c = [])))\<rparr>"
proof -
  let ?fc = "filter (\<lambda>c. cfg_inputIndex c \<ge> length (input p)) (configurations p)"
  have fin: "(\<exists>config \<in> set ?fc. \<exists>f \<in> set (getFinalStates h p).
                 state_id (h f) = state_id (h (cfg_state config))) =
             (\<exists>c \<in> set (configurations p). consumed_all p c \<and> has_final_id h p (cfg_state c))"
    by (auto simp: consumed_all_def has_final_id_def getFinalStates_def)
  have emp: "(\<exists>config \<in> set ?fc. length (cfg_stack config) = 0) =
             (\<exists>c \<in> set (configurations p). consumed_all p c \<and> cfg_stack c = [])"
    by (auto simp: consumed_all_def)
  have none: "length ?fc = 0 \<Longrightarrow> \<not> (\<exists>c \<in> set (configurations p). consumed_all p c)"
    by (auto simp: consumed_all_def filter_empty_conv)
  show ?thesis
    unfolding PDA_checkAcceptance_def Let_def fin emp
    using none by auto
qed

lemma has_final_id_flag:
  assumes "s \<in> set (states a)" and "inj_on (\<lambda>r. state_id (h r)) (set (states a))"
  shows "has_final_id h a s = isFinal (h s)"
  using assms by (auto simp: has_final_id_def inj_on_def)

text \<open>
  C2. \<open>checkAcceptance\<close> of a PDA changes nothing but isAccepted, and sets it to true
  exactly when acceptByFinalState is on and some configuration that has consumed all
  input is in a state whose id is the id of a final state among the automaton's states,
  or acceptByEmptyStack is on and some such configuration has an empty stack; otherwise
  (also when no configuration has consumed all input) to false. The constructor turns
  acceptByFinalState on and acceptByEmptyStack off. When every configuration is in one
  of the automaton's states and these have pairwise different ids, the first condition
  says that the configuration's state is final.
\<close>

theorem PDA_checkAcceptance_verdict:
  "PDA_checkAcceptance h p =
     p\<lparr>isAccepted := Some
        ((acceptByFinalState p \<and>
            (\<exists>c \<in> set (configurations p). consumed_all p c \<and> has_final_id h p (cfg_state c))) \<or>
         (acceptByEmptyStack p \<and>
            (\<exists>c \<in> set (configurations p). consumed_all p c \<and> cfg_stack c = [])))\<rparr> \<and>
   acceptByFinalState new_PDA \<and> \<not> acceptByEmptyStack new_PDA \<and>
   ((\<forall>c \<in> set (configurations p). cfg_state c \<in> set (states p)) \<and>
    inj_on (\<lambda>r. state_id (h r)) (set (states p)) \<longrightarrow>
    PDA_checkAcceptance h p =
      p\<lparr>isAccepted := Some
         ((acceptByFinalState p \<and>
             (\<exists>c \<in> set (configurations p). consumed_all p c \<and> isFinal (h (cfg_state c)))) \<or>
          (acceptByEmptyStack p \<and>
             (\<exists>c \<in> set (configurations p). consumed_all p c \<and> cfg_stack c = [])))\<rparr>)"
proof (intro conjI impI)
  show "PDA_checkAcceptance h p =
     p\<lparr>isAccepted := Some
        ((acceptByFinalState p \<and>
            (\<exists>c \<in> set (configurations p). consumed_all p c \<and> has_final_id h p (cfg_state c))) \<or>
         (acceptByEmptyStack p \<and>
            (\<exists>c \<in> set (configurations p). consumed_all p c \<and> cfg_stack c = [])))\<rparr>"
    by (rule PDA_checkAcceptance_by_id)
  show "acceptByFinalState new_PDA" "\<not> acceptByEmptyStack new_PDA"
    by (simp_all add: new_PDA_def)
  assume wf: "(\<forall>c \<in> set (configurations p). cfg_state c \<in> set (states p)) \<and>
    inj_on (\<lambda>r. state_id (h r)) (set (states p))"
  then have "\<And>c. c \<in> set (configurations p) \<Longrightarrow>
               has_final_id h p (cfg_state c) = isFinal (h (cfg_state c))"
    by (simp add: has_final_id_flag)
  then have "(\<exists>c \<in> set (configurations p). consumed_all p c \<and> has_final_id h p (cfg_state c)) =
             (\<exists>c \<in> set (configurations p). consumed_all p c \<and> isFinal (h (cfg_state c)))"
    by auto
  then show "PDA_checkAcceptance h p =
      p\<lparr>isAccepted := Some
         ((acceptByFinalState p \<and>
             (\<exists>c \<in> set (configurations p). consumed_all p c \<and> isFinal (h (cfg_state c)))) \<or>
          (acceptByEmptyStack p \<and>
             (\<exists>c \<in> set (configurations p). consumed_all p c \<and> cfg_stack c = [])))\<rparr>"
    unfolding PDA_checkAcceptance_by_id by simp
qed

theorem PDA_checkAcceptance_verdict_witness:
  "set (map cfg_state (configurations one_final_pda)) \<subseteq> set (states one_final_pda) \<and>
   inj_on (\<lambda>r. state_id (heap example_world r)) (set (states one_final_pda)) \<and>
   isFinal (heap example_world 1) \<and> \<not> isFinal (heap example_world 0) \<and>
   PDA_checkAcceptance (heap example_world) one_final_pda =
     one_final_pda\<lparr>isAccepted := Some True\<rparr>"
proof -
  have wf: "(\<forall>c \<in> set (configurations one_final_pda). cfg_state c \<in> set (states one_final_pda)) \<and>
      inj_on (\<lambda>r. state_id (heap example_world r)) (set (states one_final_pda))"
    by (simp add: one_final_pda_def example_world_def)
  show ?thesis
    using wf PDA_checkAcceptance_verdict [of "heap example_world" one_final_pda, THEN conjunct2,
            THEN conjunct2, THEN conjunct2, rule_format, OF wf]
    by (simp add: one_final_pda_def example_world_def consumed_all_def new_PDA_def)
qed

text \<open>
  Without that condition the verdict does not follow the flag: the PDA with two states
  of the same id accepts by final state although its only configuration, which has
  consumed all input, is in a state that is not final and has a non-empty stack.
\<close>

theorem PDA_accepts_state_that_is_not_final:
  "configurations twin_pda = [twin_config] \<and>
   cfg_inputIndex twin_config = length (input twin_pda) \<and>
   \<not> isFinal (twin_heap (cfg_state twin_config)) \<and>
   cfg_stack twin_config \<noteq> [] \<and>
   acceptByFinalState twin_pda \<and> \<not> acceptByEmptyStack twin_pda \<and>
   isAccepted (PDA_checkAcceptance twin_heap twin_pda) = Some True"
  by (simp add: twin_pda_def twin_config_def twin_heap_def new_PDA_def PDA_checkAcceptance_def
        getFinalStates_def)

section \<open>The step budget of run (C3)\<close>

text \<open>
  C3. The DFA with the single state q1 (initial and final) and the loop q1 -a-> q1, on
  the input \<open>aa\<close> with a budget of one step: \<open>run(1)\<close> leaves the loop after one step,
  with input remaining and a current state, and \<open>checkAcceptance\<close> of the base class
  (which does not look at the cursor) sets isAccepted to true.
\<close>

theorem DFA_run_budget_exhausted_accepts:
  "(case DFA_run (heap (fst loop_dfa)) 1
           (Automaton_initSimulation (heap (fst loop_dfa)) (snd loop_dfa) [97, 97]) of
      Inl e \<Rightarrow> False
    | Inr a \<Rightarrow>
        isAccepted a = Some True \<and> inputIndex a = 1 \<and> length (input a) = 2 \<and>
        currentStates a = [1])"
  by code_simp

section \<open>The structured round trip (C4)\<close>

text \<open>
  C4. The automaton whose only state q0 lies at x = 0: after
  \<open>loadFromJSON(toJSON(A))\<close> the state lies at x = 100, because the State constructor
  reads \<open>options.x || 100\<close> and 0 is falsy.
\<close>

theorem roundtrip_moves_state_at_origin:
  "map (\<lambda>s. pos_x (heap (fst origin_automaton) s)) (states (snd origin_automaton)) = [0] \<and>
   map (\<lambda>s. pos_x (heap (fst origin_reloaded) s)) (states (snd origin_reloaded)) = [100]"
  by code_simp

section \<open>Epsilon closure: the least closed superset (C5)\<close>

lemma pushed_from_iff:
  "pushed_from h a r =
     {r'. \<exists>t \<in> set (filter isEpsilon (getTransitionsFrom h a r)). resolve h a (toState t) = Some r'}"
  by (auto simp: pushed_from_def split: option.splits)

lemma epsilonClosure_loop_correct:
  assumes "\<forall>e \<in> set s. \<forall>r. resolve h a e = Some r \<longrightarrow> r \<in> set c"
    and "\<forall>r \<in> set c. (\<exists>e \<in> set s. resolve h a e = Some r) \<or> pushed_from h a r \<subseteq> set c"
  shows "set c \<subseteq> set (epsilonClosure_loop h a c s) \<and>
         push_closed h a (set (epsilonClosure_loop h a c s)) \<and>
         (\<forall>T. set c \<subseteq> T \<and> push_closed h a T \<longrightarrow> set (epsilonClosure_loop h a c s) \<subseteq> T)"
  using assms
proof (induction h a c s rule: epsilonClosure_loop.induct)
  case (1 h a c s)
  show ?case
  proof (cases "s = []")
    case True
    then have "epsilonClosure_loop h a c s = c"
      by (subst epsilonClosure_loop.simps) simp
    moreover have "push_closed h a (set c)"
      using "1.prems"(2) True by (simp add: push_closed_def)
    ultimately show ?thesis by simp
  next
    case False
    then obtain s1 e where s: "s = s1 @ [e]"
      by (cases s rule: rev_cases) auto
    show ?thesis
    proof (cases "resolve h a e")
      case None
      then have step: "epsilonClosure_loop h a c s = epsilonClosure_loop h a c s1"
        using s by (subst epsilonClosure_loop.simps) simp
      have p1: "\<forall>e \<in> set s1. \<forall>r. resolve h a e = Some r \<longrightarrow> r \<in> set c"
        using "1.prems"(1) s by simp
      have p2: "\<forall>r \<in> set c. (\<exists>e \<in> set s1. resolve h a e = Some r) \<or> pushed_from h a r \<subseteq> set c"
        using "1.prems"(2) s None by auto
      have "length s \<noteq> 0" "resolve h a (last s) = None" "butlast s = s1"
        using s None by simp_all
      from "1.IH"(1) [OF this(1,2)] p1 p2 this(3) show ?thesis
        unfolding step by simp
    next
      case (Some cur)
      obtain c' s' where f: "fold (closure_visit h a) (filter isEpsilon (getTransitionsFrom h a cur)) (c, s1) = (c', s')"
        by (cases "fold (closure_visit h a) (filter isEpsilon (getTransitionsFrom h a cur)) (c, s1)")
      then have step: "epsilonClosure_loop h a c s = epsilonClosure_loop h a c' s'"
        using s Some by (subst epsilonClosure_loop.simps) simp
      from fold_closure_visit [OF f] obtain new where
        new: "c' = c @ new" "s' = s1 @ map Obj new"
          "set new = pushed_from h a cur - set c"
        unfolding pushed_from_iff by blast
      have cur: "cur \<in> set c"
        using "1.prems"(1) s Some by simp
      have p1: "\<forall>e \<in> set s'. \<forall>r. resolve h a e = Some r \<longrightarrow> r \<in> set c'"
        using "1.prems"(1) s new by (auto simp: resolve_def)
      have p2: "\<forall>r \<in> set c'. (\<exists>e \<in> set s'. resolve h a e = Some r) \<or> pushed_from h a r \<subseteq> set c'"
      proof
        fix r assume r: "r \<in> set c'"
        show "(\<exists>e \<in> set s'. resolve h a e = Some r) \<or> pushed_from h a r \<subseteq> set c'"
        proof (cases "r \<in> set new")
          case True
          then have "Obj r \<in> set s'" "resolve h a (Obj r) = Some r"
            using new by (auto simp: resolve_def)
          then show ?thesis by blast
        next
          case False
          with r new have rc: "r \<in> set c" by auto
          from "1.prems"(2) rc consider
            (pending) e' where "e' \<in> set s" "resolve h a e' = Some r"
            | (settled) "pushed_from h a r \<subseteq> set c"
            by blast
          then show ?thesis
          proof cases
            case pending
            show ?thesis
            proof (cases "e' \<in> set s1")
              case True
              with pending new show ?thesis by auto
            next
              case False
              with pending s Some have "r = cur" by simp
              then have "pushed_from h a r \<subseteq> set c'"
                using new by auto
              then show ?thesis by simp
            qed
          next
            case settled
            then show ?thesis using new by auto
          qed
        qed
      qed
      have "length s \<noteq> 0" "resolve h a (last s) = Some cur"
        "(c', s') = fold (closure_visit h a) (filter isEpsilon (getTransitionsFrom h a cur)) (c, butlast s)"
        using s Some f by simp_all
      from "1.IH"(2) [OF this(1,2) refl refl this(3) p1 p2]
      have ih: "set c' \<subseteq> set (epsilonClosure_loop h a c' s')"
        "push_closed h a (set (epsilonClosure_loop h a c' s'))"
        "\<forall>T. set c' \<subseteq> T \<and> push_closed h a T \<longrightarrow> set (epsilonClosure_loop h a c' s') \<subseteq> T"
        by simp_all
      have "set c \<subseteq> set (epsilonClosure_loop h a c' s')"
        using ih(1) new by auto
      moreover have "\<forall>T. set c \<subseteq> T \<and> push_closed h a T \<longrightarrow> set (epsilonClosure_loop h a c' s') \<subseteq> T"
      proof (intro allI impI)
        fix T assume T: "set c \<subseteq> T \<and> push_closed h a T"
        then have "pushed_from h a cur \<subseteq> T"
          using cur by (auto simp: push_closed_def)
        then have "set c' \<subseteq> T" using new T by auto
        with ih(3) T show "set (epsilonClosure_loop h a c' s') \<subseteq> T" by blast
      qed
      ultimately show ?thesis
        unfolding step using ih(2) by simp
    qed
  qed
qed

lemma epsilonClosure_seed:
  "set (fold (\<lambda>s clos. case resolve h a s of None \<Rightarrow> clos | Some st \<Rightarrow> set_add st clos) sts c) =
   set c \<union> {r. \<exists>e \<in> set sts. resolve h a e = Some r}"
  by (induction sts arbitrary: c) (auto simp: set_add_def split: option.splits)

lemma epsilonClosure_correct:
  "{r. \<exists>e \<in> set sts. resolve h a e = Some r} \<subseteq> set (epsilonClosure h a sts) \<and>
   push_closed h a (set (epsilonClosure h a sts)) \<and>
   (\<forall>T. {r. \<exists>e \<in> set sts. resolve h a e = Some r} \<subseteq> T \<and> push_closed h a T \<longrightarrow>
        set (epsilonClosure h a sts) \<subseteq> T)"
proof -
  define c where
    "c = fold (\<lambda>s clos. case resolve h a s of None \<Rightarrow> clos | Some st \<Rightarrow> set_add st clos) sts []"
  have c: "set c = {r. \<exists>e \<in> set sts. resolve h a e = Some r}"
    unfolding c_def by (simp add: epsilonClosure_seed)
  have p1: "\<forall>e \<in> set sts. \<forall>r. resolve h a e = Some r \<longrightarrow> r \<in> set c"
    using c by auto
  have p2: "\<forall>r \<in> set c. (\<exists>e \<in> set sts. resolve h a e = Some r) \<or> pushed_from h a r \<subseteq> set c"
    using c by auto
  from epsilonClosure_loop_correct [OF p1 p2] show ?thesis
    unfolding epsilonClosure_def c_def [symmetric] c by simp
qed

lemma resolved_objects: "{r. \<exists>e \<in> set (map Obj S). resolve h a e = Some r} = set S"
  by (auto simp: resolve_def)

text \<open>What the loop follows from a state are the epsilon steps from that state.\<close>

lemma isEpsilon_labelled: "isEpsilon t = epsilon_labelled t"
proof (cases "symbols t")
  case Nil
  then show ?thesis by (simp add: isEpsilon_def epsilon_labelled_def)
next
  case (Cons s ss)
  then show ?thesis
    by (cases ss) (auto simp: isEpsilon_def epsilon_labelled_def)
qed

lemma from_leaves: "t \<in> set (getTransitionsFrom h a r) \<longleftrightarrow> t \<in> set (transitions a) \<and> leaves h t r"
  by (auto simp: getTransitionsFrom_def getFromStateId_def endpoint_id_def leaves_def
           split: endpoint.splits)

lemma resolve_leads_to: "resolve h a (toState t) = Some r \<longleftrightarrow> leads_to h a t r"
  by (auto simp: resolve_def getState_def leads_to_def split: endpoint.splits)

lemma pushed_from_edge: "pushed_from h a r = {r'. eps_edge h a r r'}"
  unfolding pushed_from_iff eps_edge_def
  by (auto simp: from_leaves resolve_leads_to isEpsilon_labelled)

lemma push_closed_eps_closed: "push_closed h a T = eps_closed h a T"
  by (auto simp: push_closed_def eps_closed_def pushed_from_edge)

lemma closure_follows:
  assumes "t \<in> set (transitions a)" and "epsilon_labelled t"
    and "leaves h t r" and "leads_to h a t r'"
    and "r \<in> set (epsilonClosure h a (map Obj S))"
  shows "r' \<in> set (epsilonClosure h a (map Obj S))"
proof -
  have "eps_closed h a (set (epsilonClosure h a (map Obj S)))"
    using epsilonClosure_correct [of "map Obj S" h a]
    unfolding push_closed_eps_closed by blast
  moreover have "eps_edge h a r r'"
    using assms(1-4) by (auto simp: eps_edge_def)
  ultimately show ?thesis
    using assms(5) by (auto simp: eps_closed_def)
qed

text \<open>
  C5. For every NFA, every store and every list \<open>S\<close> of state objects, the epsilon
  closure contains \<open>S\<close>, applying it to its own result gives the same set, and the
  result is the least set that contains \<open>S\<close> and is closed under following epsilon
  transitions.
\<close>

theorem epsilonClosure_least_closed_superset:
  "set S \<subseteq> set (epsilonClosure h a (map Obj S)) \<and>
   set (epsilonClosure h a (map Obj (epsilonClosure h a (map Obj S)))) =
     set (epsilonClosure h a (map Obj S)) \<and>
   eps_closed h a (set (epsilonClosure h a (map Obj S))) \<and>
   (\<forall>T. set S \<subseteq> T \<and> eps_closed h a T \<longrightarrow> set (epsilonClosure h a (map Obj S)) \<subseteq> T)"
proof -
  let ?C = "epsilonClosure h a (map Obj S)"
  have one: "set S \<subseteq> set ?C" "eps_closed h a (set ?C)"
    "\<forall>T. set S \<subseteq> T \<and> eps_closed h a T \<longrightarrow> set ?C \<subseteq> T"
    using epsilonClosure_correct [of "map Obj S" h a]
    unfolding resolved_objects push_closed_eps_closed by blast+
  have two: "set ?C \<subseteq> set (epsilonClosure h a (map Obj ?C))"
    "\<forall>T. set ?C \<subseteq> T \<and> eps_closed h a T \<longrightarrow> set (epsilonClosure h a (map Obj ?C)) \<subseteq> T"
    using epsilonClosure_correct [of "map Obj ?C" h a]
    unfolding resolved_objects push_closed_eps_closed by blast+
  have "set (epsilonClosure h a (map Obj ?C)) \<subseteq> set ?C"
    using two(2) one(2) by blast
  with two(1) have "set (epsilonClosure h a (map Obj ?C)) = set ?C"
    by blast
  with one show ?thesis by blast
qed

text \<open>
  In the NFA with four states the closure of q0 is q0 and q1: the epsilon transition
  from q2 is not followed from q0, and neither is the transition on \<open>a\<close>.
\<close>

lemma chain_nfa_fields:
  "states (snd chain_nfa) = [0, 1, 2, 3]"
  "transitions (snd chain_nfa) =
     [example_transition 0 1 [EPSILON], (example_transition 1 2 [[97]])\<lparr>trans_id := 1\<rparr>,
      (example_transition 2 3 [])\<lparr>trans_id := 2, fromState := Num 2, toState := Num 3\<rparr>]"
  "state_id (heap (fst chain_nfa) r) = int r"
  by (simp_all add: chain_nfa_def mutations_def addState_def addTransition_def
        new_Automaton_def example_world_def set_isInitial_def)

lemma chain_edges:
  "eps_edge (heap (fst chain_nfa)) (snd chain_nfa) r r' \<longleftrightarrow> (r = 0 \<and> r' = 1) \<or> (r = 2 \<and> r' = 3)"
  by (auto simp: eps_edge_def chain_nfa_fields epsilon_labelled_def leaves_def leads_to_def
        example_transition_def EPSILON_def)

theorem epsilonClosure_least_closed_superset_witness:
  "epsilonClosure (heap (fst chain_nfa)) (snd chain_nfa) (map Obj [0]) = [0, 1] \<and>
   epsilonClosure (heap (fst chain_nfa)) (snd chain_nfa) (map Obj [2]) = [2, 3] \<and>
   epsilonClosure (heap (fst chain_nfa)) (snd chain_nfa) (map Obj [0, 1]) = [0, 1] \<and>
   set [0] \<subseteq> {0, 1 :: ref} \<and>
   eps_closed (heap (fst chain_nfa)) (snd chain_nfa) {0, 1} \<and>
   \<not> eps_closed (heap (fst chain_nfa)) (snd chain_nfa) {0} \<and>
   set (epsilonClosure (heap (fst chain_nfa)) (snd chain_nfa) (map Obj [0])) \<subseteq> {0, 1}"
proof -
  have c: "epsilonClosure (heap (fst chain_nfa)) (snd chain_nfa) (map Obj [0]) = [0, 1]"
    "epsilonClosure (heap (fst chain_nfa)) (snd chain_nfa) (map Obj [2]) = [2, 3]"
    "epsilonClosure (heap (fst chain_nfa)) (snd chain_nfa) (map Obj [0, 1]) = [0, 1]"
    by code_simp+
  have cl: "eps_closed (heap (fst chain_nfa)) (snd chain_nfa) {0, 1}"
    "\<not> eps_closed (heap (fst chain_nfa)) (snd chain_nfa) {0}"
    by (simp_all add: eps_closed_def chain_edges)
  have s: "set [0] \<subseteq> {0, 1 :: ref}" by simp
  from epsilonClosure_least_closed_superset
         [of "[0]" "heap (fst chain_nfa)" "snd chain_nfa"]
  have "set (epsilonClosure (heap (fst chain_nfa)) (snd chain_nfa) (map Obj [0])) \<subseteq> {0, 1}"
    using s cl(1) by blast
  with c cl s show ?thesis by blast
qed

section \<open>Turing machine: the step budget and the loop detector (C6)\<close>

lemma TM_checkAcceptance_frame:
  "currentStates (TM_checkAcceptance h tm) = currentStates tm \<and>
   trace (TM_checkAcceptance h tm) = trace tm"
  by (simp add: TM_checkAcceptance_def Let_def)

















lemma tape_update_same: "tape r = v \<Longrightarrow> r\<lparr>tape := v\<rparr> = (r :: TuringMachine)"
  by (cases r) auto

























section \<open>Turing machine: growth of the tape (C7)\<close>

lemma extend_left_diverges: "index < 0 \<Longrightarrow> extend_left index tm = None"
proof (rule ccontr)
  assume neg: "index < 0" and "extend_left index tm \<noteq> None"
  then obtain r where r: "extend_left index tm = Some r" by auto
  have "0 \<le> index"
    using r
  proof (induction rule: extend_left.raw_induct)
    case (1 f index tm r)
    show ?case
    proof (rule ccontr)
      assume "\<not> 0 \<le> index"
      then have n: "index < 0" by simp
      let ?tm = "tm\<lparr>tape := Some (blankSymbol tm) # tape tm,
                     visibleTapeStart := visibleTapeStart tm - 1,
                     headPosition := headPosition tm + 1\<rparr>"
      from 1(2) n have a: "f index ?tm = Some r" by simp
      from 1(3) n have b: "extend_left index ?tm = Some r"
        by (subst (asm) extend_left.simps) simp
      from 1(1) [OF a b] n show False by simp
    qed
  qed (fact r)
  with neg show False by simp
qed

text \<open>
  C7. After \<open>initSimulation('ab')\<close> the tape starts at the logical position -10.
  \<open>setTapeCell(-11, 'c')\<close> never returns: its loop \<open>while (index < 0)\<close> unshifts
  blanks forever, because \<open>index\<close> is a constant computed before the loop.
\<close>

theorem setTapeCell_left_of_window_never_returns:
  "visibleTapeStart (TM_initSimulation h new_TuringMachine [97, 98]) = - 10 \<and>
   setTapeCell (TM_initSimulation h new_TuringMachine [97, 98]) (- 11) [99] = None"
proof -
  have v: "visibleTapeStart (TM_initSimulation h new_TuringMachine [97, 98]) = - 10"
    by (simp add: TM_initSimulation_def initializeTape_def Let_def new_TuringMachine_def
          split: option.splits)
  then show ?thesis
    by (simp add: setTapeCell_def Let_def extend_left_diverges)
qed

text \<open>
  The other ways in which the tape grows do keep every cell at its logical position: a
  head move of \<open>step\<close> in either direction, and a \<open>setTapeCell\<close> at or right of the
  first materialised position, which returns and changes the written cell only.
\<close>

lemma getTapeCell_cases:
  "getTapeCell tm p =
     (if p < visibleTapeStart tm \<or> visibleTapeStart tm + int (length (tape tm)) \<le> p
      then Some (blankSymbol tm)
      else tape tm ! nat (p - visibleTapeStart tm))"
  by (auto simp: getTapeCell_def Let_def)

lemma unshift_keeps_cells:
  "getTapeCell
     (tm\<lparr>tape := Some (blankSymbol tm) # tape tm, headPosition := hp,
         visibleTapeStart := visibleTapeStart tm - 1\<rparr>) p = getTapeCell tm p"
proof -
  let ?s = "visibleTapeStart tm"
  consider "p < ?s - 1" | "p = ?s - 1" | "?s \<le> p" "p < ?s + int (length (tape tm))"
    | "?s + int (length (tape tm)) \<le> p"
    by linarith
  then show ?thesis
  proof cases
    case 1
    then show ?thesis by (simp add: getTapeCell_cases)
  next
    case 2
    then show ?thesis by (simp add: getTapeCell_cases)
  next
    case 3
    then have "nat (p - (?s - 1)) = Suc (nat (p - ?s))" by linarith
    with 3 show ?thesis
      unfolding getTapeCell_cases by simp
  next
    case 4
    then show ?thesis by (simp add: getTapeCell_cases)
  qed
qed

lemma push_keeps_cells:
  "getTapeCell
     (tm\<lparr>headPosition := hp, tape := tape tm @ [Some (blankSymbol tm)],
         visibleTapeEnd := ve\<rparr>) p = getTapeCell tm p"
proof -
  let ?s = "visibleTapeStart tm"
  consider "p < ?s" | "?s \<le> p" "p < ?s + int (length (tape tm))"
    | "p = ?s + int (length (tape tm))" | "?s + int (length (tape tm)) < p"
    by linarith
  then show ?thesis
  proof cases
    case 2
    then have "nat (p - ?s) < length (tape tm)" by linarith
    with 2 show ?thesis
      unfolding getTapeCell_cases by (simp add: nth_append)
  next
    case 3
    then have "nat (p - ?s) = length (tape tm)" by linarith
    with 3 show ?thesis
      unfolding getTapeCell_cases by (simp add: nth_append)
  qed (simp_all add: getTapeCell_cases)
qed

lemma head_keeps_cells: "getTapeCell (tm\<lparr>headPosition := hp\<rparr>) p = getTapeCell tm p"
  by (simp add: getTapeCell_cases)

lemma move_head_keeps_cells: "getTapeCell (move_head tm d) p = getTapeCell tm p"
proof -
  have l: "getTapeCell
      (tm\<lparr>tape := Some (blankSymbol tm) # tape tm, headPosition := 0,
          visibleTapeStart := visibleTapeStart tm - 1\<rparr>) p = getTapeCell tm p"
    by (rule unshift_keeps_cells)
  have r: "getTapeCell
      (tm\<lparr>headPosition := headPosition tm + 1, tape := tape tm @ [Some (blankSymbol tm)],
          visibleTapeEnd := visibleTapeEnd tm + 1\<rparr>) p = getTapeCell tm p"
    by (rule push_keeps_cells)
  show ?thesis
    using l r by (simp add: move_head_def Let_def head_keeps_cells)
qed

lemma extend_right_props:
  "tape (extend_right i tm) =
     tape tm @ replicate (nat (i + 1 - int (length (tape tm)))) (Some (blankSymbol tm)) \<and>
   visibleTapeStart (extend_right i tm) = visibleTapeStart tm \<and>
   blankSymbol (extend_right i tm) = blankSymbol tm"
proof (induction i tm rule: extend_right.induct)
  case (1 i tm)
  show ?case
  proof (cases "i \<ge> int (length (tape tm))")
    case False
    then show ?thesis
      by (subst (1 2 3) extend_right.simps) simp
  next
    case True
    let ?tm = "tm\<lparr>tape := tape tm @ [Some (blankSymbol tm)],
                   visibleTapeEnd := visibleTapeEnd tm + 1\<rparr>"
    have e: "extend_right i tm = extend_right i ?tm"
      using True by (subst extend_right.simps) simp
    have n: "nat (i + 1 - int (length (tape tm))) = Suc (nat (i + 1 - int (length (tape ?tm))))"
      using True by simp
    from "1.IH" [OF True] show ?thesis
      unfolding e n by (simp add: replicate_append_same)
  qed
qed

lemma extend_left_returns: "0 \<le> i \<Longrightarrow> extend_left i tm = Some tm"
  by (subst extend_left.simps) simp

lemma setTapeCell_at_or_right_of_start:
  assumes "visibleTapeStart tm \<le> position"
  shows "\<exists>tm'. setTapeCell tm position symbol = Some tm' \<and>
           (\<forall>q. getTapeCell tm' q =
                  (if q = position then Some symbol else getTapeCell tm q))"
proof -
  define i where "i = position - visibleTapeStart tm"
  define t2 where "t2 = extend_right i tm"
  define n where "n = nat (i + 1 - int (length (tape tm)))"
  have i0: "0 \<le> i" using assms by (simp add: i_def)
  have t2: "tape t2 = tape tm @ replicate n (Some (blankSymbol tm))"
    "visibleTapeStart t2 = visibleTapeStart tm" "blankSymbol t2 = blankSymbol tm"
    using extend_right_props [of i tm] by (simp_all add: t2_def n_def)
  have len: "i < int (length (tape t2))"
    by (simp add: t2 n_def)
  define tm' where
    "tm' = t2\<lparr>tape := (tape t2)[nat i := Some symbol],
               tapeAlphabet := set_add symbol (tapeAlphabet t2)\<rparr>"
  have r: "setTapeCell tm position symbol = Some tm'"
    using i0 len
    by (simp add: setTapeCell_def Let_def i_def [symmetric] extend_left_returns
          t2_def [symmetric] array_set_def tm'_def)
  have "getTapeCell tm' q = (if q = position then Some symbol else getTapeCell tm q)" for q
  proof -
    let ?s = "visibleTapeStart tm"
    let ?l = "int (length (tape tm))"
    have l2: "int (length (tape t2)) = ?l + int n"
      by (simp add: t2)
    consider "q = position" | "q < ?s" | "q \<noteq> position" "?s \<le> q" "q < ?s + ?l"
      | "q \<noteq> position" "?s + ?l \<le> q" "q < ?s + ?l + int n" | "?s + ?l + int n \<le> q"
      by linarith
    then show ?thesis
    proof cases
      case 1
      have "nat (position - ?s) < length (tape t2)"
        using i0 len by (simp add: i_def)
      with 1 i0 len show ?thesis
        unfolding getTapeCell_cases
        by (simp add: tm'_def t2(2,3) l2 i_def)
    next
      case 2
      with assms show ?thesis
        unfolding getTapeCell_cases by (simp add: tm'_def t2(2,3))
    next
      case 3
      then have a: "nat (q - ?s) \<noteq> nat i" "nat (q - ?s) < length (tape tm)"
        using i0 by (simp_all add: i_def)
      with 3 show ?thesis
        unfolding getTapeCell_cases
        by (simp add: tm'_def t2(2,3) l2 t2(1) nth_append)
    next
      case 4
      then have a: "nat (q - ?s) \<noteq> nat i" "\<not> nat (q - ?s) < length (tape tm)"
        "nat (q - ?s) - length (tape tm) < n"
        using i0 by (simp_all add: i_def)
      with 4 show ?thesis
        unfolding getTapeCell_cases
        by (simp add: tm'_def t2(2,3) l2 t2(1) nth_append)
    next
      case 5
      moreover have "position < ?s + ?l + int n"
        using len l2 by (simp add: i_def)
      ultimately show ?thesis
        unfolding getTapeCell_cases by (simp add: tm'_def t2(2,3) l2)
    qed
  qed
  with r show ?thesis by blast
qed

section \<open>At most one initial state (C8)\<close>

lemma heap_set_isInitial [simp]:
  "heap (set_isInitial w r b) = (heap w)(r := (heap w r)\<lparr>isInitial := b\<rparr>)"
  by (simp add: set_isInitial_def)

lemma initial_inv_addState: "initial_inv (w, a) \<Longrightarrow> initial_inv (addState w a s)"
  by (auto simp: initial_inv_def addState_def Let_def split: option.splits if_splits)

lemma initial_inv_removeState:
  assumes "initial_inv (w, a)"
  shows "initial_inv (removeState w a st)"
proof -
  define sid where "sid = endpoint_id (heap w) st"
  define ss where "ss = filter (\<lambda>s. Some (state_id (heap w s)) \<noteq> sid) (states a)"
  have inv: "\<And>r. r \<in> set (states a) \<Longrightarrow> isInitial (heap w r) \<Longrightarrow> initialState a = Some r"
    using assms by (simp add: initial_inv_def)
  have kept: "\<And>r. r \<in> set ss \<Longrightarrow> r \<in> set (states a) \<and> Some (state_id (heap w r)) \<noteq> sid"
    by (simp add: ss_def)
  show ?thesis
  proof (cases "initialState a")
    case None
    then show ?thesis
      using inv by (auto simp: initial_inv_def removeState_def Let_def)
  next
    case (Some i)
    show ?thesis
    proof (cases "Some (state_id (heap w i)) = sid")
      case False
      then show ?thesis
        using Some inv by (auto simp: initial_inv_def removeState_def Let_def sid_def)
    next
      case True
      have none: "\<And>r. r \<in> set ss \<Longrightarrow> \<not> isInitial (heap w r)"
        using kept inv Some True by fastforce
      show ?thesis
      proof (cases ss)
        case Nil
        then show ?thesis
          using Some True
          by (simp add: initial_inv_def removeState_def Let_def sid_def [symmetric] ss_def [symmetric])
      next
        case (Cons f fs)
        then show ?thesis
          using Some True none
          by (auto simp: initial_inv_def removeState_def Let_def sid_def [symmetric] ss_def [symmetric])
      qed
    qed
  qed
qed

lemma initial_inv_setInitialState: "initial_inv (w, a) \<Longrightarrow> initial_inv (setInitialState w a st)"
  by (auto simp: initial_inv_def setInitialState_def Let_def split: option.splits if_splits)

lemma initial_inv_addTransition: "initial_inv (w, a) \<Longrightarrow> initial_inv (w, addTransition a t)"
  by (simp add: initial_inv_def addTransition_def)

lemma initial_inv_removeTransition: "initial_inv (w, a) \<Longrightarrow> initial_inv (w, removeTransition a t)"
  by (simp add: initial_inv_def removeTransition_def Let_def)

lemma initial_inv_clear: "initial_inv (clear w a)"
  by (simp add: initial_inv_def clear_def resetSimulation_def)

lemma initial_inv_mutate: "initial_inv wa \<Longrightarrow> initial_inv (mutate wa m)"
  by (cases wa; cases m)
     (simp_all add: initial_inv_addState initial_inv_removeState initial_inv_setInitialState
        initial_inv_addTransition initial_inv_removeTransition initial_inv_clear)

lemma initial_inv_mutations: "initial_inv wa \<Longrightarrow> initial_inv (mutations wa ms)"
  unfolding mutations_def
  by (induction ms arbitrary: wa) (simp_all add: initial_inv_mutate)

lemma initial_inv_at_most_one: "initial_inv wa \<Longrightarrow> at_most_one_initial wa"
  unfolding initial_inv_def at_most_one_initial_def
  by (metis option.inject)

text \<open>
  C8. Starting from a newly constructed automaton of any type, over any store of State
  objects, after any sequence of calls of addState, removeState, addTransition,
  removeTransition, setInitialState and clear, at most one state object of the automaton
  has its isInitial flag set.
\<close>

theorem at_most_one_initial_after_mutations:
  "at_most_one_initial (mutations (w, new_Automaton ty) ms)"
  by (rule initial_inv_at_most_one, rule initial_inv_mutations)
     (simp add: initial_inv_def new_Automaton_def)

theorem at_most_one_initial_after_mutations_witness:
  "at_most_one_initial
     (mutations (example_world, new_Automaton NFA_type)
        [AddState 0, AddState 1, SetInitialState (Num 1)]) \<and>
   states (snd (mutations (example_world, new_Automaton NFA_type)
        [AddState 0, AddState 1, SetInitialState (Num 1)])) = [0, 1] \<and>
   isInitial (heap (fst (mutations (example_world, new_Automaton NFA_type) [AddState 0])) 0) \<and>
   \<not> isInitial (heap (fst (mutations (example_world, new_Automaton NFA_type)
        [AddState 0, AddState 1, SetInitialState (Num 1)])) 0) \<and>
   isInitial (heap (fst (mutations (example_world, new_Automaton NFA_type)
        [AddState 0, AddState 1, SetInitialState (Num 1)])) 1)"
  using at_most_one_initial_after_mutations
          [of example_world NFA_type "[AddState 0, AddState 1, SetInitialState (Num 1)]"]
  by code_simp

section \<open>Operations on an unknown id (C9)\<close>

text \<open>
  C9. In the automaton with the states q0 (initial) and q1, no state has the id 7.
  \<open>setInitialState(7)\<close> nevertheless clears the isInitial flag of q0 (the flag is cleared
  before the id is looked up), while \<open>initialState\<close> still points at q0.
\<close>

theorem setInitialState_unknown_id_clears_flag:
  "getState (heap (fst two_states)) (snd two_states) 7 = None \<and>
   isInitial (heap (fst two_states) 0) \<and>
   \<not> isInitial (heap (fst (setInitialState (fst two_states) (snd two_states) (Num 7))) 0) \<and>
   initialState (snd (setInitialState (fst two_states) (snd two_states) (Num 7))) = Some 0"
  by code_simp

text \<open>
  \<open>removeState\<close> on an id that no state and no endpoint of a transition has does
  leave the automaton and the store as they are.
\<close>

lemma removeState_unknown_id_unchanged:
  assumes "\<And>s. s \<in> set (states a) \<Longrightarrow> state_id (heap w s) \<noteq> i"
    and "\<And>t. t \<in> set (transitions a) \<Longrightarrow>
           getFromStateId (heap w) t \<noteq> Some i \<and> getToStateId (heap w) t \<noteq> Some i"
    and "\<And>s. initialState a = Some s \<Longrightarrow> s \<in> set (states a)"
  shows "removeState w a (Num i) = (w, a)"
proof -
  have t: "filter (\<lambda>t. getFromStateId (heap w) t \<noteq> Some i \<and> getToStateId (heap w) t \<noteq> Some i)
             (transitions a) = transitions a"
    using assms(2) by (simp add: filter_id_conv)
  have s: "filter (\<lambda>s. state_id (heap w s) \<noteq> i) (states a) = states a"
    using assms(1) by (simp add: filter_id_conv)
  show ?thesis
    using assms(1,3)
    by (auto simp: removeState_def endpoint_id_def t s Let_def split: option.splits)
qed

section \<open>Transitions that carry an epsilon symbol (C10)\<close>

lemma NFA_moves_inner:
  assumes "\<forall>u \<in> set (snd acc). accepts u (Some sy)"
  shows "\<forall>u \<in> set (snd (fold (\<lambda>t (nextStates, usedTransitions).
                     if accepts t (Some sy)
                     then (case resolve h a (toState t) of
                             None \<Rightarrow> (nextStates, usedTransitions)
                           | Some toS \<Rightarrow> (set_add toS nextStates, usedTransitions @ [t]))
                     else (nextStates, usedTransitions)) ts acc)). accepts u (Some sy)"
  using assms
proof (induction ts arbitrary: acc)
  case Nil
  then show ?case by simp
next
  case (Cons t ts)
  obtain ns us where acc: "acc = (ns, us)" by (cases acc)
  show ?case
    unfolding fold_simps
    by (rule Cons.IH) (use Cons.prems acc in \<open>simp split: option.splits\<close>)
qed

lemma NFA_moves_outer:
  assumes "\<forall>u \<in> set (snd acc). accepts u (Some sy)"
  shows "\<forall>u \<in> set (snd (fold (\<lambda>currentState acc.
             fold (\<lambda>t (nextStates, usedTransitions).
                     if accepts t (Some sy)
                     then (case resolve h a (toState t) of
                             None \<Rightarrow> (nextStates, usedTransitions)
                           | Some toS \<Rightarrow> (set_add toS nextStates, usedTransitions @ [t]))
                     else (nextStates, usedTransitions))
                  (getTransitionsFrom h a currentState) acc) cs acc)). accepts u (Some sy)"
  using assms
proof (induction cs arbitrary: acc)
  case Nil
  then show ?case by simp
next
  case (Cons c cs)
  show ?case
    unfolding fold_simps
    by (rule Cons.IH, rule NFA_moves_inner, rule Cons.prems)
qed

lemma NFA_moves_used_accept:
  assumes "u \<in> set (snd (NFA_moves h a sy))"
  shows "accepts u (Some sy)"
proof -
  have "\<forall>u \<in> set (snd (([], []) :: ref list \<times> Transition list)). accepts u (Some sy)"
    by simp
  from NFA_moves_outer [OF this] assms show ?thesis
    unfolding NFA_moves_def by (rule bspec)
qed

text \<open>
  C10. A transition whose symbols contain the epsilon sign or the empty string accepts
  no ordinary symbol \<open>s\<close> (one that is neither the empty string nor the epsilon sign),
  also when \<open>s\<close> is listed in its symbols: it accepts exactly the empty string, the
  epsilon sign and null. So NFA.step, reading \<open>s\<close>, never uses such a transition. When
  its symbols contain the epsilon sign or are the empty string alone, it is an epsilon
  transition, and the epsilon closure follows it from its source to its target.
\<close>

theorem epsilon_transition_accepts_no_ordinary_symbol:
  assumes "EPSILON \<in> set (symbols t) \<or> [] \<in> set (symbols t)"
    and "s \<noteq> []" and "s \<noteq> EPSILON"
  shows "\<not> accepts t (Some s) \<and> t \<notin> set (snd (NFA_moves h a s)) \<and>
         (\<forall>sy. accepts t sy \<longleftrightarrow> sy = Some [] \<or> sy = Some EPSILON \<or> sy = None) \<and>
         ((EPSILON \<in> set (symbols t) \<or> symbols t = [[]]) \<and> t \<in> set (transitions a) \<and>
          fromState t = Obj r \<and> toState t = Obj r' \<and> r \<in> set S \<longrightarrow>
          isEpsilon t \<and> r' \<in> set (epsilonClosure h a (map Obj S)))"
proof (intro conjI allI impI)
  show no: "\<not> accepts t (Some s)"
    using assms by (simp add: accepts_def)
  show "t \<notin> set (snd (NFA_moves h a s))"
  proof
    assume "t \<in> set (snd (NFA_moves h a s))"
    then have "accepts t (Some s)" by (rule NFA_moves_used_accept)
    with no show False by simp
  qed
  show "accepts t sy \<longleftrightarrow> sy = Some [] \<or> sy = Some EPSILON \<or> sy = None" for sy
    using assms(1) by (simp add: accepts_def)
  assume e: "(EPSILON \<in> set (symbols t) \<or> symbols t = [[]]) \<and> t \<in> set (transitions a) \<and>
          fromState t = Obj r \<and> toState t = Obj r' \<and> r \<in> set S"
  then show "isEpsilon t"
    by (auto simp: isEpsilon_def)
  have "r \<in> set (epsilonClosure h a (map Obj S))"
    using e epsilonClosure_correct [of "map Obj S" h a] unfolding resolved_objects by blast
  moreover have "epsilon_labelled t" "leaves h t r" "leads_to h a t r'"
    using e by (auto simp: epsilon_labelled_def leaves_def leads_to_def)
  ultimately show "r' \<in> set (epsilonClosure h a (map Obj S))"
    using e closure_follows by blast
qed

lemma mixed_nfa_fields:
  "transitions (snd mixed_nfa) = [example_transition 0 1 [EPSILON, [97]]]"
  "states (snd mixed_nfa) = [0, 1]"
  by (simp_all add: mixed_nfa_def mutations_def addState_def addTransition_def
        new_Automaton_def)

theorem epsilon_transition_accepts_no_ordinary_symbol_witness:
  "symbols (example_transition 0 1 [EPSILON, [97]]) = [EPSILON, [97]] \<and>
   transitions (snd mixed_nfa) = [example_transition 0 1 [EPSILON, [97]]] \<and>
   \<not> accepts (example_transition 0 1 [EPSILON, [97]]) (Some [97]) \<and>
   currentStates (NFA_initSimulation (heap (fst mixed_nfa)) (snd mixed_nfa) [97]) = [0, 1] \<and>
   NFA_moves (heap (fst mixed_nfa))
     (NFA_initSimulation (heap (fst mixed_nfa)) (snd mixed_nfa) [97]) [97] = ([], []) \<and>
   example_transition 0 1 [EPSILON, [97]] \<notin>
     set (snd (NFA_moves (heap (fst mixed_nfa))
                 (NFA_initSimulation (heap (fst mixed_nfa)) (snd mixed_nfa) [97]) [97])) \<and>
   isEpsilon (example_transition 0 1 [EPSILON, [97]]) \<and>
   1 \<in> set (epsilonClosure (heap (fst mixed_nfa)) (snd mixed_nfa) (map Obj [0]))"
proof -
  let ?t = "example_transition 0 1 [EPSILON, [97]]"
  have h: "EPSILON \<in> set (symbols ?t) \<or> [] \<in> set (symbols ?t)"
    by (simp add: example_transition_def)
  have n: "[97] \<noteq> ([] :: jsstring)" "[97] \<noteq> EPSILON"
    by (simp_all add: EPSILON_def)
  have e: "(EPSILON \<in> set (symbols ?t) \<or> symbols ?t = [[]]) \<and>
      ?t \<in> set (transitions (snd mixed_nfa)) \<and> fromState ?t = Obj 0 \<and> toState ?t = Obj 1 \<and>
      0 \<in> set [0 :: ref]"
    by (simp add: mixed_nfa_fields) (simp add: example_transition_def)
  have c: "currentStates (NFA_initSimulation (heap (fst mixed_nfa)) (snd mixed_nfa) [97]) = [0, 1]"
    "NFA_moves (heap (fst mixed_nfa))
       (NFA_initSimulation (heap (fst mixed_nfa)) (snd mixed_nfa) [97]) [97] = ([], [])"
    by code_simp+
  have a1: "\<not> accepts ?t (Some [97])"
    and a2: "?t \<notin> set (snd (NFA_moves (heap (fst mixed_nfa))
                 (NFA_initSimulation (heap (fst mixed_nfa)) (snd mixed_nfa) [97]) [97]))"
    using epsilon_transition_accepts_no_ordinary_symbol
      [OF h n, where h = "heap (fst mixed_nfa)"
         and a = "NFA_initSimulation (heap (fst mixed_nfa)) (snd mixed_nfa) [97]"]
    by blast+
  have a3: "isEpsilon ?t \<and> 1 \<in> set (epsilonClosure (heap (fst mixed_nfa)) (snd mixed_nfa) (map Obj [0]))"
    using epsilon_transition_accepts_no_ordinary_symbol
      [OF h n, where h = "heap (fst mixed_nfa)" and a = "snd mixed_nfa" and r = 0 and r' = 1
         and S = "[0]", THEN conjunct2, THEN conjunct2, THEN conjunct2, rule_format, OF e] .
  have sy: "symbols ?t = [EPSILON, [97]]"
    by (simp add: example_transition_def)
  from sy mixed_nfa_fields(1) a1 c(1) c(2) a2 a3 show ?thesis
    by (intro conjI) (erule conjunct1 conjunct2 asm_rl)+
qed

text \<open>
  The two ways in which such a transition is not purely an epsilon transition. With the
  symbols \<open>['', 'a']\<close> it is no epsilon transition for \<open>isEpsilon\<close>, and the closure
  of q0 does not contain its target q1. With the symbol epsilon, NFA.step on the input
  character epsilon uses it and consumes that character.
\<close>

theorem epsilon_symbol_transitions_not_purely_epsilon:
  "[] \<in> set (symbols (example_transition 0 1 [[], [97]])) \<and>
   transitions (snd blank_mixed_nfa) = [example_transition 0 1 [[], [97]]] \<and>
   \<not> isEpsilon (example_transition 0 1 [[], [97]]) \<and>
   epsilonClosure (heap (fst blank_mixed_nfa)) (snd blank_mixed_nfa) [Obj 0] = [0] \<and>
   EPSILON \<in> set (symbols (example_transition 0 1 [EPSILON])) \<and>
   transitions (snd epsilon_nfa) = [example_transition 0 1 [EPSILON]] \<and>
   snd (NFA_moves (heap (fst epsilon_nfa))
          (NFA_initSimulation (heap (fst epsilon_nfa)) (snd epsilon_nfa) EPSILON) EPSILON) =
     [example_transition 0 1 [EPSILON]] \<and>
   NFA_step (heap (fst epsilon_nfa))
     (NFA_initSimulation (heap (fst epsilon_nfa)) (snd epsilon_nfa) EPSILON) =
     Inr (True,
       (NFA_initSimulation (heap (fst epsilon_nfa)) (snd epsilon_nfa) EPSILON)
         \<lparr>currentStates := [1],
          trace := trace (NFA_initSimulation (heap (fst epsilon_nfa)) (snd epsilon_nfa) EPSILON) @
            [\<lparr>te_step = 1, te_states = [[113, 49]], te_tape = None, te_headPosition = None,
              te_symbol = Some EPSILON, te_description = TookTransition\<rparr>],
          inputIndex := 1\<rparr>)"
  by code_simp

end
